theory Spec2Isabelle
  imports Complex_Main "HOL-Library.Multiset"
begin

section \<open>Python and NumPy values\<close>

text \<open>
  Floating-point numbers are modelled as real numbers: rounding, signed zeros and
  \<open>nan\<close> are not represented. The one infinite value the sources write themselves
  (\<open>np.inf\<close> for \<open>Q_P\<close>) has a constructor of its own further down.

  The first five constructors of \<open>error\<close> are the Python exceptions the sources can
  raise, \<open>FitpackError\<close> is the exception of SciPy's spline routines, and the last
  three are the error kinds the specification names; no statement of the sources
  raises one of those three.
\<close>

datatype error =
    ValueError | IndexError | KeyError | TypeError | ZeroDivisionError | FitpackError
  | MalformedTableError | DimensionMismatchError | UnknownFieldError

definition and_then :: "error + 'a \<Rightarrow> ('a \<Rightarrow> error + 'b) \<Rightarrow> error + 'b" where
  "and_then r f = (case r of Inl e \<Rightarrow> Inl e | Inr v \<Rightarrow> f v)"

fun collect :: "(error + 'a) list \<Rightarrow> error + 'a list" where
  "collect [] = Inr []"
| "collect (r # rs) = and_then r (\<lambda>v. and_then (collect rs) (\<lambda>vs. Inr (v # vs)))"

text \<open>\<open>str.lower()\<close> on ASCII strings.\<close>

definition ascii_uppercase :: string where
  "ascii_uppercase = ''ABCDEFGHIJKLMNOPQRSTUVWXYZ''"

definition ascii_lowercase :: string where
  "ascii_lowercase = ''abcdefghijklmnopqrstuvwxyz''"

definition lower_char :: "char \<Rightarrow> char" where
  "lower_char c =
     (case map_of (zip ascii_uppercase ascii_lowercase) c of None \<Rightarrow> c | Some d \<Rightarrow> d)"

definition lower :: "string \<Rightarrow> string" where
  "lower s = map lower_char s"

text \<open>\<open>np.unique\<close>: the sorted distinct values. \<open>np.max\<close> and \<open>np.min\<close> raise
  ValueError on an empty array.\<close>

definition np_unique :: "real list \<Rightarrow> real list" where
  "np_unique xs = sort (remdups xs)"

definition np_max :: "real list \<Rightarrow> error + real" where
  "np_max xs = (if xs = [] then Inl ValueError else Inr (Max (set xs)))"

definition np_min :: "real list \<Rightarrow> error + real" where
  "np_min xs = (if xs = [] then Inl ValueError else Inr (Min (set xs)))"

section \<open>lookup\_tables.py\<close>

subsection \<open>scipy.interpolate.interp2d, kind linear\<close>

text \<open>
  SciPy's \<open>interp2d(x, y, z)\<close> with its defaults (\<open>kind='linear'\<close>,
  \<open>bounds_error=False\<close>, \<open>fill_value=None\<close>) is the degree-one tensor-product spline
  through the grid values: piecewise linear along each axis between neighbouring
  knots, and evaluated at the nearest knot of an axis for an argument outside that
  axis (SciPy's documentation: values outside the domain are extrapolated by
  nearest-neighbour extrapolation). \<open>pwl\<close> is that piecewise linear function of one
  argument over increasing knots, \<open>bilinear\<close> its tensor product: along \<open>x\<close> within
  every row of \<open>z\<close>, then along \<open>y\<close>. The axes are outputs of \<open>np.unique\<close> here, so they
  are strictly increasing. FITPACK needs at least two knots on each axis.

  Calling the interpolant on two sequences sorts each of them first
  (\<open>assume_sorted=False\<close>), evaluates on their Cartesian product, one row per
  \<open>y\<close>, and returns a one-dimensional array when there is a single row. FITPACK's
  evaluation refuses an empty sequence, and the call raises ValueError.
\<close>

fun pwl :: "real list \<Rightarrow> real list \<Rightarrow> real \<Rightarrow> real" where
  "pwl (x0 # x1 # xs) (v0 # v1 # vs) x =
     (if x \<le> x0 then v0
      else if x \<le> x1 then v0 + (v1 - v0) * (x - x0) / (x1 - x0)
      else pwl (x1 # xs) (v1 # vs) x)"
| "pwl [x0] (v0 # vs) x = v0"
| "pwl xs vs x = 0"

definition bilinear :: "real list \<Rightarrow> real list \<Rightarrow> real list list \<Rightarrow> real \<Rightarrow> real \<Rightarrow> real" where
  "bilinear x y z xq yq = pwl y (map (\<lambda>row. pwl x row xq) z) yq"

definition interp2d ::
  "real list \<Rightarrow> real list \<Rightarrow> real list list \<Rightarrow> error + (real \<Rightarrow> real \<Rightarrow> real)" where
  "interp2d x y z =
     (if length z \<noteq> length y \<or> (\<exists>row\<in>set z. length row \<noteq> length x) then Inl ValueError
      else if length x < 2 \<or> length y < 2 then Inl FitpackError
      else Inr (bilinear x y z))"

datatype grid_result = Grid2D "real list list" | Grid1D "real list"

definition interp2d_call ::
  "(real \<Rightarrow> real \<Rightarrow> real) \<Rightarrow> real list \<Rightarrow> real list \<Rightarrow> error + grid_result" where
  "interp2d_call g xs ys =
     (if xs = [] \<or> ys = [] then Inl ValueError
      else
        let z = map (\<lambda>yq. map (\<lambda>xq. g xq yq) (sort xs)) (sort ys)
        in Inr (if length z = 1 then Grid1D (hd z) else Grid2D z))"

subsection \<open>SeismicLookupTable.\_\_init\_\_ (lines 42 to 111)\<close>

text \<open>
  The table is the array \<open>np.genfromtxt\<close> returned, a list of rows. For a file
  with a single row of data or none, and for a file with a single column,
  \<open>np.genfromtxt\<close> returns a one-dimensional array, on which \<open>table[:, 0]\<close> raises
  IndexError; so does \<open>table[:, c]\<close> on a two-dimensional array with no column \<open>c\<close>.
  \<open>column table c\<close> is \<open>table[:, c]\<close> and \<open>slice_column table lo hi c\<close> is
  \<open>table[lo:hi, c]\<close>; a slice that runs past the last row is cut short, as in Python.
\<close>

definition column :: "real list list \<Rightarrow> nat \<Rightarrow> real list" where
  "column table c = map (\<lambda>row. row ! c) table"

definition slice_column :: "real list list \<Rightarrow> nat \<Rightarrow> nat \<Rightarrow> nat \<Rightarrow> real list" where
  "slice_column table lo hi c = map (\<lambda>row. row ! c) (take (hi - lo) (drop lo table))"

text \<open>
  \<open>G[:, i] = v\<close> for an array \<open>G\<close> with \<open>n\<close> rows: NumPy accepts a \<open>v\<close> of length
  \<open>n\<close>, broadcasts a \<open>v\<close> of length one, and raises ValueError otherwise.
\<close>

definition assign_column :: "nat \<Rightarrow> real list \<Rightarrow> error + real list" where
  "assign_column n v =
     (if length v = n then Inr v
      else if length v = 1 then Inr (replicate n (hd v))
      else Inl ValueError)"

text \<open>
  The loop of lines 65 to 89 for one table column \<open>c\<close>: block \<open>i\<close> of \<open>pstep\<close>
  consecutive rows becomes column \<open>i\<close> of an array of shape
  \<open>(len(temp), len(pres))\<close>, returned as the list of its rows.
\<close>

definition field_grid :: "real list list \<Rightarrow> nat \<Rightarrow> nat \<Rightarrow> nat \<Rightarrow> error + real list list" where
  "field_grid table pstep n_p c =
     and_then
       (collect (map (\<lambda>i. assign_column pstep
                         (slice_column table (0 + i * pstep) (pstep + i * pstep) c)) [0..<n_p]))
       (\<lambda>cols. Inr (map (\<lambda>j. map (\<lambda>col. col ! j) cols) [0..<pstep]))"

record SeismicLookupTable =
  table :: "real list list"
  pres :: "real list"
  temp :: "real list"
  n_uniq_p :: nat
  n_uniq_t :: nat
  t_max :: real
  t_min :: real
  p_max :: real
  p_min :: real
  pstep :: nat
  fields' :: "string \<Rightarrow> (nat \<times> real list list \<times> string) option"
  vp_interp :: "real \<Rightarrow> real \<Rightarrow> real"
  vs_interp :: "real \<Rightarrow> real \<Rightarrow> real"
  vp_an_interp :: "real \<Rightarrow> real \<Rightarrow> real"
  vs_an_interp :: "real \<Rightarrow> real \<Rightarrow> real"
  vphi_interp :: "real \<Rightarrow> real \<Rightarrow> real"
  density_interp :: "real \<Rightarrow> real \<Rightarrow> real"
  qs_interp :: "real \<Rightarrow> real \<Rightarrow> real"
  t_sol_interp :: "real \<Rightarrow> real \<Rightarrow> real"

definition SeismicLookupTable_init :: "real list list \<Rightarrow> error + SeismicLookupTable" where
  "SeismicLookupTable_init tab =
     (if length tab < 2 \<or> (\<exists>row\<in>set tab. length row < 10) then Inl IndexError
      else
        let pres' = np_unique (column tab 0);
            temp' = np_unique (column tab 1);
            step = length temp';
            n = length pres'
        in
        and_then (np_max temp') (\<lambda>tmax.
        and_then (np_min temp') (\<lambda>tmin.
        and_then (np_max pres') (\<lambda>pmax.
        and_then (np_min pres') (\<lambda>pmin.
        and_then (field_grid tab step n 2) (\<lambda>Vp.
        and_then (field_grid tab step n 3) (\<lambda>Vs.
        and_then (field_grid tab step n 4) (\<lambda>Vp_an.
        and_then (field_grid tab step n 5) (\<lambda>Vs_an.
        and_then (field_grid tab step n 6) (\<lambda>Vphi.
        and_then (field_grid tab step n 7) (\<lambda>Dens.
        and_then (field_grid tab step n 8) (\<lambda>Qs.
        and_then (field_grid tab step n 9) (\<lambda>T_sol.
        and_then (interp2d pres' temp' Vp) (\<lambda>vp_f.
        and_then (interp2d pres' temp' Vs) (\<lambda>vs_f.
        and_then (interp2d pres' temp' Vp_an) (\<lambda>vp_an_f.
        and_then (interp2d pres' temp' Vs_an) (\<lambda>vs_an_f.
        and_then (interp2d pres' temp' Vphi) (\<lambda>vphi_f.
        and_then (interp2d pres' temp' Dens) (\<lambda>density_f.
        and_then (interp2d pres' temp' Qs) (\<lambda>qs_f.
        and_then (interp2d pres' temp' T_sol) (\<lambda>t_sol_f.
        Inr \<lparr> table = tab, pres = pres', temp = temp',
              n_uniq_p = n, n_uniq_t = step,
              t_max = tmax, t_min = tmin, p_max = pmax, p_min = pmin,
              pstep = step,
              fields' = [''vp'' \<mapsto> (2, Vp, ''km/s''),
                         ''vs'' \<mapsto> (3, Vs, ''km/s''),
                         ''vp_ani'' \<mapsto> (4, Vp_an, ''km/s''),
                         ''vs_ani'' \<mapsto> (5, Vs_an, ''km/s''),
                         ''vphi'' \<mapsto> (6, Vphi, ''km/s''),
                         ''density'' \<mapsto> (7, Dens, ''$kg/m^3$''),
                         ''qs'' \<mapsto> (8, Qs, ''Hz''),
                         ''t_sol'' \<mapsto> (9, T_sol, ''K'')],
              vp_interp = vp_f, vs_interp = vs_f, vp_an_interp = vp_an_f,
              vs_an_interp = vs_an_f, vphi_interp = vphi_f, density_interp = density_f,
              qs_interp = qs_f, t_sol_interp = t_sol_f \<rparr>)))))))))))))))))))))"

subsection \<open>\_check\_bounds, interp\_grid and interp\_points\<close>

text \<open>
  A query argument is a Python number (an \<open>int\<close> or a \<open>float\<close>) or a sequence (a
  list or a one-dimensional array), the two cases of \<open>arg\<close>, or a NumPy scalar such
  as \<open>np.float64\<close> (\<open>NpNum\<close>). Lines 135, 136, 163 and 164 put a Python number into
  a one-element list and leave every other argument as it is (\<open>wrap\<close>). What
  \<open>print\<close> writes is returned as a list of lines, next to the value or the exception.
\<close>

datatype arg = Num real | Seq "real list"

fun promote :: "arg \<Rightarrow> real list" where
  "promote (Num x) = [x]"
| "promote (Seq xs) = xs"

datatype argument = Std arg | NpNum real

fun wrap :: "argument \<Rightarrow> argument" where
  "wrap (Std a) = Std (Seq (promote a))"
| "wrap (NpNum v) = NpNum v"

text \<open>The values of an argument as SciPy and \<open>len\<close> see them.\<close>

fun values_of :: "argument \<Rightarrow> real list" where
  "values_of (Std a) = promote a"
| "values_of (NpNum v) = [v]"

definition exceeds_message :: "string \<Rightarrow> string" where
  "exceeds_message TP = ''One or more of your '' @ TP @
     '' inputs exceeds the table range, reverting to maximum table value''"

definition below_message :: "string \<Rightarrow> string" where
  "below_message TP = ''One or more of your '' @ TP @
     '' inputs is below the table range, reverting to minimum table value''"

text \<open>
  \<open>_check_bounds\<close> slices its input (\<open>input[:]\<close>) before it compares: a NumPy
  scalar cannot be indexed and raises IndexError, a bare Python number would raise
  TypeError.
\<close>

definition check_bounds :: "argument \<Rightarrow> real list \<Rightarrow> string \<Rightarrow> error + string list" where
  "check_bounds input check TP =
     (case input of
        NpNum v \<Rightarrow> Inl IndexError
      | Std (Num x) \<Rightarrow> Inl TypeError
      | Std (Seq xs) \<Rightarrow>
          and_then (np_max check) (\<lambda>hi.
            let out1 = (if \<exists>v\<in>set xs. v > hi then [exceeds_message TP] else [])
            in and_then (np_min check) (\<lambda>lo.
                 Inr (out1 @ (if \<exists>v\<in>set xs. v < lo then [below_message TP] else [])))))"

text \<open>
  The common beginning of both queries: the two bound checks, then the look-up of the
  field and the construction of the interpolant. An exception ends the query; what
  was printed before it stays printed.
\<close>

definition query_grid ::
  "SeismicLookupTable \<Rightarrow> string \<Rightarrow> error + (real \<Rightarrow> real \<Rightarrow> real)" where
  "query_grid self field =
     (case fields' self (lower field) of
        None \<Rightarrow> Inl KeyError
      | Some entry \<Rightarrow> interp2d (pres self) (temp self) (fst (snd entry)))"

definition checked ::
  "SeismicLookupTable \<Rightarrow> argument \<Rightarrow> argument \<Rightarrow> (error + 'a) \<Rightarrow> string list \<times> (error + 'a)" where
  "checked self press temps rest =
     (case check_bounds press (pres self) ''pressure'' of
        Inl e \<Rightarrow> ([], Inl e)
      | Inr out1 \<Rightarrow>
          (case check_bounds temps (temp self) ''temperature'' of
             Inl e \<Rightarrow> (out1, Inl e)
           | Inr out2 \<Rightarrow> (out1 @ out2, rest)))"

definition interp_grid ::
  "SeismicLookupTable \<Rightarrow> argument \<Rightarrow> argument \<Rightarrow> string \<Rightarrow> string list \<times> (error + grid_result)" where
  "interp_grid self press temps field =
     (let press = wrap press; temps = wrap temps
      in checked self press temps
           (and_then (query_grid self field) (\<lambda>grid.
              interp2d_call grid (values_of press) (values_of temps))))"

text \<open>
  The loop of lines 172 and 173 reads \<open>temps[i]\<close> for every index of \<open>press\<close>: it
  raises IndexError when \<open>temps\<close> is the shorter sequence and never looks at the
  surplus of a longer one.
\<close>

definition interp_points ::
  "SeismicLookupTable \<Rightarrow> argument \<Rightarrow> argument \<Rightarrow> string \<Rightarrow> string list \<times> (error + real list)" where
  "interp_points self press temps field =
     (let press = wrap press; temps = wrap temps
      in checked self press temps
           (and_then (query_grid self field) (\<lambda>grid.
              if length (values_of temps) < length (values_of press) then Inl IndexError
              else Inr (map (\<lambda>i. grid (values_of press ! i) (values_of temps ! i))
                          [0..<length (values_of press)]))))"

subsection \<open>linear\_interp\_1d\<close>

text \<open>
  The values of this function are IEEE 754 binary64 numbers, and what the
  specification says of it is an exact equality, so its arithmetic is modelled
  with the rounding. \<open>rne\<close> rounds a real number to the nearest integer, a tie to
  the even one. \<open>fl\<close> rounds a real number to the nearest number with a
  significand of 53 bits and an exponent of the last place of at least -1074 (below
  \<open>2 ^ -1022\<close> the spacing stays \<open>2 ^ -1074\<close>, the subnormal numbers), and
  \<open>to_double\<close> sends what rounds to \<open>2 ^ 1024\<close> or beyond to an infinity. The finite
  doubles are the reals \<open>x\<close> with \<open>to_double x = Fin x\<close>. The two zeros are one value
  here: a zero divisor counts as \<open>+0\<close>, which is what the difference of two equal
  doubles is.
\<close>

definition rne :: "real \<Rightarrow> int" where
  "rne x = (let n = \<lfloor>x\<rfloor>; d = x - of_int n
            in if d < 1 / 2 then n else if 1 / 2 < d then n + 1 else if even n then n else n + 1)"

definition ulp_exponent :: "real \<Rightarrow> int" where
  "ulp_exponent x = max (\<lfloor>log 2 \<bar>x\<bar>\<rfloor> - 52) (- 1074)"

definition fl :: "real \<Rightarrow> real" where
  "fl x = (if x = 0 then 0 else of_int (rne (x / 2 powi ulp_exponent x)) * 2 powi ulp_exponent x)"

datatype double = Fin real | PosInf | NegInf | NaN

definition to_double :: "real \<Rightarrow> double" where
  "to_double x = (if \<bar>fl x\<bar> < 2 ^ 1024 then Fin (fl x) else if 0 < x then PosInf else NegInf)"

definition is_double :: "real \<Rightarrow> bool" where
  "is_double x \<longleftrightarrow> to_double x = Fin x"

fun fneg :: "double \<Rightarrow> double" where
  "fneg (Fin x) = Fin (- x)"
| "fneg PosInf = NegInf"
| "fneg NegInf = PosInf"
| "fneg NaN = NaN"

fun fadd :: "double \<Rightarrow> double \<Rightarrow> double" where
  "fadd (Fin x) (Fin y) = to_double (x + y)"
| "fadd NaN b = NaN"
| "fadd a NaN = NaN"
| "fadd PosInf NegInf = NaN"
| "fadd NegInf PosInf = NaN"
| "fadd PosInf b = PosInf"
| "fadd a PosInf = PosInf"
| "fadd NegInf b = NegInf"
| "fadd a NegInf = NegInf"

definition fsub :: "double \<Rightarrow> double \<Rightarrow> double" where
  "fsub a b = fadd a (fneg b)"

fun fmul :: "double \<Rightarrow> double \<Rightarrow> double" where
  "fmul (Fin x) (Fin y) = to_double (x * y)"
| "fmul NaN b = NaN"
| "fmul a NaN = NaN"
| "fmul (Fin x) b = (if x = 0 then NaN else if 0 < x then b else fneg b)"
| "fmul a (Fin y) = (if y = 0 then NaN else if 0 < y then a else fneg a)"
| "fmul PosInf b = b"
| "fmul NegInf b = fneg b"

fun fdiv :: "double \<Rightarrow> double \<Rightarrow> double" where
  "fdiv (Fin x) (Fin y) =
     (if y = 0 then (if x = 0 then NaN else if 0 < x then PosInf else NegInf)
      else to_double (x / y))"
| "fdiv NaN b = NaN"
| "fdiv a NaN = NaN"
| "fdiv (Fin x) b = Fin 0"
| "fdiv a (Fin y) = (if 0 \<le> y then a else fneg a)"
| "fdiv a b = NaN"

text \<open>
  SciPy's \<open>interp1d\<close> over the two abscissae \<open>c1\<close> and \<open>c2\<close>, of kind \<open>linear\<close> with
  \<open>fill_value="extrapolate"\<close>, so that a call goes to its \<open>_call_linear\<close>. The
  constructor sorts the two samples by abscissa with a stable sort. The call finds
  the place of \<open>x_new\<close> among the abscissae (\<open>searchsorted\<close>), clips it to the range
  from 1 to the last index, which with two samples is always 1, and computes
  \<open>slope = (y_hi - y_lo) / (x_hi - x_lo)\<close> and \<open>slope * (x_new - x_lo) + y_lo\<close>, four
  rounded operations and a fifth for \<open>x_hi - x_lo\<close>, for every \<open>x_new\<close>, inside the
  interval or not: \<open>line_value\<close>. The two value arrays, flattened, are the rows of one
  array, so they must have one length. The arguments are floating-point arrays and
  numbers, and \<open>cnew\<close> is one number.
\<close>

definition searchsorted :: "real list \<Rightarrow> real \<Rightarrow> nat" where
  "searchsorted xs v = length (takeWhile (\<lambda>a. a < v) xs)"

definition line_value :: "real \<Rightarrow> real \<Rightarrow> real \<Rightarrow> real \<Rightarrow> real \<Rightarrow> double" where
  "line_value x_lo x_hi x_new y_lo y_hi =
     (let slope = fdiv (fsub (Fin y_hi) (Fin y_lo)) (fsub (Fin x_hi) (Fin x_lo))
      in fadd (fmul slope (fsub (Fin x_new) (Fin x_lo))) (Fin y_lo))"

definition linear_interp_1d ::
  "real list \<Rightarrow> real list \<Rightarrow> real \<Rightarrow> real \<Rightarrow> real \<Rightarrow> error + double list" where
  "linear_interp_1d vals1 vals2 c1 c2 cnew =
     (if length vals1 \<noteq> length vals2 then Inl ValueError
      else
        let knots = sort_key fst [(c1, vals1), (c2, vals2)];
            x = map fst knots;
            y = map snd knots;
            i = min (length x - 1) (max 1 (searchsorted x cnew));
            x_lo = x ! (i - 1); x_hi = x ! i;
            y_lo = y ! (i - 1); y_hi = y ! i
        in Inr (map (\<lambda>(ylo, yhi). line_value x_lo x_hi cnew ylo yhi) (zip y_lo y_hi)))"

text \<open>
  \<open>exact_line\<close> says that none of the five operations of \<open>line_value\<close> rounds: each
  result, as a real number, is a double.
\<close>

definition exact_line :: "real \<Rightarrow> real \<Rightarrow> real \<Rightarrow> real \<Rightarrow> real \<Rightarrow> bool" where
  "exact_line x_lo x_hi x_new y_lo y_hi \<longleftrightarrow>
     is_double (y_hi - y_lo) \<and> is_double (x_hi - x_lo) \<and>
     is_double ((y_hi - y_lo) / (x_hi - x_lo)) \<and> is_double (x_new - x_lo) \<and>
     is_double ((y_hi - y_lo) / (x_hi - x_lo) * (x_new - x_lo)) \<and>
     is_double ((y_hi - y_lo) / (x_hi - x_lo) * (x_new - x_lo) + y_lo)"

subsection \<open>Tables used as concrete inputs\<close>

text \<open>
  \<open>example_table\<close> has the layout of the docstring of \<open>__init__\<close>: two pressures,
  three temperatures, rows ascending by pressure then temperature; the eight field
  columns hold ten times the row number plus the column number. \<open>swapped_table\<close> has
  two pressures and two temperatures, lists the temperatures of its second pressure
  in descending order and repeats its last row.
\<close>

definition example_table :: "real list list" where
  "example_table =
     [[0, 500, 2, 3, 4, 5, 6, 7, 8, 9],
      [0, 1000, 12, 13, 14, 15, 16, 17, 18, 19],
      [0, 1500, 22, 23, 24, 25, 26, 27, 28, 29],
      [100000000, 500, 32, 33, 34, 35, 36, 37, 38, 39],
      [100000000, 1000, 42, 43, 44, 45, 46, 47, 48, 49],
      [100000000, 1500, 52, 53, 54, 55, 56, 57, 58, 59]]"

definition swapped_table :: "real list list" where
  "swapped_table =
     [[0, 500, 2, 3, 4, 5, 6, 7, 8, 9],
      [0, 1000, 12, 13, 14, 15, 16, 17, 18, 19],
      [100000000, 1000, 42, 43, 44, 45, 46, 47, 48, 49],
      [100000000, 500, 32, 33, 34, 35, 36, 37, 38, 39],
      [100000000, 500, 32, 33, 34, 35, 36, 37, 38, 39]]"

section \<open>attenuation.py\<close>

subsection \<open>Scalars and arrays\<close>

text \<open>
  Every numeric argument of the two functions of this file is a Python or NumPy
  number (\<open>Sc\<close>) or a one-dimensional NumPy array (\<open>Ar\<close>), and the code tells the two
  apart by the exceptions they raise. The operations below are NumPy's:
  \<^item> a unary operation works element by element (\<open>nd_map\<close>);
  \<^item> a binary operation broadcasts (\<open>broadcast\<close>): a number against an array, two
    arrays of one length, or an array of length one against any array; two arrays of
    other lengths raise ValueError;
  \<^item> \<open>x += y\<close> on an array \<open>x\<close> writes into \<open>x\<close> and so keeps its length (\<open>iadd\<close>),
    while on a number it is \<open>x = x + y\<close>;
  \<^item> \<open>if x:\<close> takes the truth value of a number or of an array of one element, is
    False (with a warning) for an empty array and raises ValueError for an array of
    two or more elements (\<open>truth\<close>);
  \<^item> \<open>float(x)\<close> converts a number or an array of one element and raises TypeError
    for every other array (\<open>py_float\<close>); that is the NumPy this package runs with,
    the one of SciPy's \<open>interp2d\<close>, where converting a one-element array is at most
    deprecated;
  \<^item> \<open>A[np.argwhere(sel)] = c\<close> and \<open>A[np.argwhere(sel)] = V[np.argwhere(sel)]\<close>
    write the positions where \<open>sel\<close> holds, and raise IndexError when one of them is
    not a position of \<open>A\<close> or of \<open>V\<close> (\<open>fill_where\<close>, \<open>put_where\<close>).

  The arrays are of floating-point dtype. An array of integers as the temperature is not
  represented: \<open>np.zeros_like(temperature)\<close> would then be an integer array, and the
  \<open>+=\<close> of line 134 would raise.

  Division is that of the real numbers. Where a divisor is zero, NumPy returns \<open>inf\<close>
  or \<open>nan\<close> with a warning, Python's own floats raise ZeroDivisionError, and the terms
  below have HOL's \<open>x / 0 = 0\<close>. The one quotient whose value at zero the claims speak
  of, \<open>1.0 / invQP\<close> on a NumPy number, is written out (\<open>reciprocal\<close>); the statements
  about the values of the other quotients assume their divisors are not zero.
  \<open>np.power(frequency, a)\<close> is \<open>powr\<close>, which agrees with it for a positive
  frequency.
\<close>

datatype 'a nd = Sc 'a | Ar "'a list"

fun nd_map :: "('a \<Rightarrow> 'b) \<Rightarrow> 'a nd \<Rightarrow> 'b nd" where
  "nd_map f (Sc x) = Sc (f x)"
| "nd_map f (Ar xs) = Ar (map f xs)"

fun broadcast :: "('a \<Rightarrow> 'b \<Rightarrow> 'c) \<Rightarrow> 'a nd \<Rightarrow> 'b nd \<Rightarrow> error + 'c nd" where
  "broadcast f (Sc x) (Sc y) = Inr (Sc (f x y))"
| "broadcast f (Sc x) (Ar ys) = Inr (Ar (map (f x) ys))"
| "broadcast f (Ar xs) (Sc y) = Inr (Ar (map (\<lambda>x. f x y) xs))"
| "broadcast f (Ar xs) (Ar ys) =
     (if length xs = length ys then Inr (Ar (map (\<lambda>(x, y). f x y) (zip xs ys)))
      else if length xs = 1 then Inr (Ar (map (f (hd xs)) ys))
      else if length ys = 1 then Inr (Ar (map (\<lambda>x. f x (hd ys)) xs))
      else Inl ValueError)"

fun iadd :: "real nd \<Rightarrow> real nd \<Rightarrow> error + real nd" where
  "iadd (Sc x) y = broadcast (+) (Sc x) y"
| "iadd (Ar xs) (Sc y) = Inr (Ar (map (\<lambda>x. x + y) xs))"
| "iadd (Ar xs) (Ar ys) =
     (if length ys = length xs then Inr (Ar (map (\<lambda>(x, y). x + y) (zip xs ys)))
      else if length ys = 1 then Inr (Ar (map (\<lambda>x. x + hd ys) xs))
      else Inl ValueError)"

fun truth :: "bool nd \<Rightarrow> error + bool" where
  "truth (Sc b) = Inr b"
| "truth (Ar []) = Inr False"
| "truth (Ar [b]) = Inr b"
| "truth (Ar (b # c # bs)) = Inl ValueError"

fun py_float :: "real nd \<Rightarrow> error + real" where
  "py_float (Sc x) = Inr x"
| "py_float (Ar []) = Inl TypeError"
| "py_float (Ar [x]) = Inr x"
| "py_float (Ar (x # y # xs)) = Inl TypeError"

definition fill_where :: "bool list \<Rightarrow> 'a \<Rightarrow> 'a list \<Rightarrow> error + 'a list" where
  "fill_where sel c A =
     (if \<exists>i<length sel. sel ! i \<and> length A \<le> i then Inl IndexError
      else Inr (map (\<lambda>i. if i < length sel \<and> sel ! i then c else A ! i) [0..<length A]))"

definition put_where :: "bool list \<Rightarrow> 'a list \<Rightarrow> 'a list \<Rightarrow> error + 'a list" where
  "put_where sel V A =
     (if \<exists>i<length sel. sel ! i \<and> (length A \<le> i \<or> length V \<le> i) then Inl IndexError
      else Inr (map (\<lambda>i. if i < length sel \<and> sel ! i then V ! i else A ! i) [0..<length A]))"

text \<open>Element \<open>i\<close> of a result, for statements about batches: a number stands for each
  of its elements, as in broadcasting.\<close>

fun element :: "'a nd \<Rightarrow> nat \<Rightarrow> 'a" where
  "element (Sc x) i = x"
| "element (Ar xs) i = xs ! i"

subsection \<open>mantle\_domain\_fractions\<close>

text \<open>
  The result is an array of shape \<open>(3,)\<close> (\<open>Vec\<close>) from the \<open>try\<close> block or of shape
  \<open>(len(pressure), 3)\<close> (\<open>Mat\<close>, with its number of columns and its rows) from the
  \<open>except\<close> block.
\<close>

datatype fractions = Vec "real list" | Mat nat "real list list"

definition P_smooth_halfwidth :: real where
  "P_smooth_halfwidth = 1100000000"

definition T_ref :: real where
  "T_ref = 750"

definition pressure_tztop :: "real \<Rightarrow> real" where
  "pressure_tztop temperature = 11100000000 + 2400000 * (temperature - T_ref)"

definition pressure_tzbase :: "real \<Rightarrow> real" where
  "pressure_tzbase temperature = 26100000000 - 2200000 * (temperature - T_ref)"

text \<open>\<open>pressure < boundary + offset\<close> as the condition of an \<open>if\<close>, and the blend
  fraction \<open>(pressure - (boundary - P_smooth_halfwidth)) / (2.0 * P_smooth_halfwidth)\<close>.\<close>

definition below :: "real nd \<Rightarrow> real nd \<Rightarrow> real \<Rightarrow> error + bool" where
  "below pressure boundary offset =
     and_then (broadcast (<) pressure (nd_map (\<lambda>b. b + offset) boundary)) truth"

definition blend :: "real nd \<Rightarrow> real nd \<Rightarrow> error + real nd" where
  "blend pressure boundary =
     broadcast (\<lambda>p b. (p - (b - P_smooth_halfwidth)) / (2 * P_smooth_halfwidth)) pressure boundary"

text \<open>
  The \<open>try\<close> block, lines 203 to 223. \<open>fractions[:2] = [1.0 - f, f]\<close> stores two
  numbers; when \<open>f\<close> is an array, the right-hand side is an array of shape
  \<open>(2, len(f))\<close>, which does not fit two positions, and NumPy raises ValueError.
\<close>

definition store_pair :: "real nd \<Rightarrow> (real \<Rightarrow> real list) \<Rightarrow> error + fractions" where
  "store_pair f place = (case f of Sc v \<Rightarrow> Inr (Vec (place v)) | Ar vs \<Rightarrow> Inl ValueError)"

definition fractions_try :: "real nd \<Rightarrow> real nd \<Rightarrow> error + fractions" where
  "fractions_try pressure temperature =
     (let tztop = nd_map pressure_tztop temperature;
          tzbase = nd_map pressure_tzbase temperature
      in
      and_then (below pressure tztop (- P_smooth_halfwidth)) (\<lambda>c1.
      if c1 then Inr (Vec [1, 0, 0])
      else
      and_then (below pressure tztop P_smooth_halfwidth) (\<lambda>c2.
      if c2 then and_then (blend pressure tztop) (\<lambda>f. store_pair f (\<lambda>v. [1 - v, v, 0]))
      else
      and_then (below pressure tzbase (- P_smooth_halfwidth)) (\<lambda>c3.
      if c3 then Inr (Vec [0, 1, 0])
      else
      and_then (below pressure tzbase P_smooth_halfwidth) (\<lambda>c4.
      if c4 then and_then (blend pressure tzbase) (\<lambda>f. store_pair f (\<lambda>v. [0, 1 - v, v]))
      else Inr (Vec [0, 0, 1]))))))"

text \<open>
  The \<open>except\<close> block, lines 225 to 244. The five index arrays are computed from
  \<open>f_umtz\<close> and \<open>f_tzlm\<close> before anything is stored, and the five stores follow in the
  order of the source, each on the rows of its own index array; \<open>batch_row\<close> is what
  they leave in the row of one pressure-temperature pair. \<open>len(pressure)\<close> raises
  TypeError for a number. A store into a row that \<open>fractions\<close> does not have raises
  IndexError, and every position of \<open>f_umtz\<close> is in one of the index arrays. (The
  block is entered after a ValueError of the \<open>try\<close> block, which leaves \<open>f_umtz\<close> with
  at least \<open>len(pressure)\<close> positions.)
\<close>

definition batch_row :: "real \<Rightarrow> real \<Rightarrow> real list" where
  "batch_row f_umtz f_tzlm =
     (let row0 = [0, 0, 0];
          row1 = (if f_umtz \<le> 0 then row0[0 := 1] else row0);
          row2 = (if f_umtz \<ge> 0 \<and> f_umtz \<le> 1 then row1[0 := 1 - f_umtz, 1 := f_umtz] else row1);
          row3 = (if f_umtz \<ge> 1 \<and> f_tzlm \<le> 0 then row2[1 := 1] else row2);
          row4 = (if f_tzlm \<ge> 0 \<and> f_tzlm \<le> 1 then row3[1 := 1 - f_tzlm, 2 := f_tzlm] else row3)
      in if f_tzlm \<ge> 1 then row4[2 := 1] else row4)"

definition fractions_except :: "real nd \<Rightarrow> real nd \<Rightarrow> error + fractions" where
  "fractions_except pressure temperature =
     (case pressure of
        Sc p \<Rightarrow> Inl TypeError
      | Ar ps \<Rightarrow>
          and_then (blend pressure (nd_map pressure_tztop temperature)) (\<lambda>f_umtz.
          and_then (blend pressure (nd_map pressure_tzbase temperature)) (\<lambda>f_tzlm.
          case (f_umtz, f_tzlm) of
            (Ar us, Ar ls) \<Rightarrow>
              if length us \<noteq> length ps then Inl IndexError
              else Inr (Mat 3 (map (\<lambda>(u, l). batch_row u l) (zip us ls)))
          | other \<Rightarrow> Inl IndexError)))"

definition mantle_domain_fractions :: "real nd \<Rightarrow> real nd \<Rightarrow> error + fractions" where
  "mantle_domain_fractions pressure temperature =
     (case fractions_try pressure temperature of
        Inl ValueError \<Rightarrow> fractions_except pressure temperature
      | result \<Rightarrow> result)"

subsection \<open>AttenuationModelGoes.anelastic\_properties\<close>

text \<open>
  A parameter dictionary of \<open>Q_models\<close> is a record, the model object holds the solidus
  function, the mixing function and the list of dictionaries. The solidus function is
  given on numbers; called with an array of pressures (line 125) it is taken to work
  element by element. The mixing function receives the arguments as they were passed
  and answers with a \<open>Vec\<close> or a \<open>Mat\<close>.
\<close>

record Q_model =
  Q0 :: real
  g :: real
  a :: real
  QK :: real

record AttenuationModelGoes =
  T_solidus_function :: "real \<Rightarrow> real"
  model_mixing_function :: "real nd \<Rightarrow> real nd \<Rightarrow> error + fractions"
  Q_models :: "Q_model list"

text \<open>\<open>Q_P\<close> is a number or \<open>np.inf\<close>; \<open>1.0 / x\<close> on a NumPy number is \<open>inf\<close> at zero.\<close>

datatype qval = Finite real | Infinity

definition reciprocal :: "real \<Rightarrow> qval" where
  "reciprocal x = (if x = 0 then Infinity else Finite (1 / x))"

record AnelasticProperties =
  V_P :: "real nd"
  V_S :: "real nd"
  Q_S :: "real nd"
  Q_K :: "real nd"
  Q_P :: "qval nd"
  T_solidus :: "real nd"

text \<open>
  A \<open>for\<close> loop whose body may raise, and \<open>enumerate\<close>. Iterating over a \<open>Vec\<close> gives
  its numbers; iterating over a \<open>Mat\<close> gives its rows, and over its transpose
  (\<open>fractions.T\<close>) its columns.
\<close>

fun loop :: "('s \<Rightarrow> 'x \<Rightarrow> error + 's) \<Rightarrow> 's \<Rightarrow> 'x list \<Rightarrow> error + 's" where
  "loop body s [] = Inr s"
| "loop body s (x # xs) = and_then (body s x) (\<lambda>s'. loop body s' xs)"

definition enumerate_from0 :: "'x list \<Rightarrow> (nat \<times> 'x) list" where
  "enumerate_from0 xs = zip [0..<length xs] xs"

fun rows_of :: "fractions \<Rightarrow> real nd list" where
  "rows_of (Vec fs) = map Sc fs"
| "rows_of (Mat n rows) = map Ar rows"

fun columns_of :: "fractions \<Rightarrow> real nd list" where
  "columns_of (Vec fs) = map Sc fs"
| "columns_of (Mat n rows) = map (\<lambda>j. Ar (map (\<lambda>row. row ! j) rows)) [0..<n]"

text \<open>
  The body of both loops (lines 114 to 121 and 133 to 140):
  \<open>Q0 * np.power(frequency, a) * np.exp(a * g * Tm / Q_temperature)\<close> for one material,
  then the three \<open>+=\<close>. \<open>self.Q_models[i]\<close> raises IndexError past the end of the list.
\<close>

definition Q_term :: "Q_model \<Rightarrow> real \<Rightarrow> real \<Rightarrow> real \<Rightarrow> real" where
  "Q_term Q_mod frequency Tm Q_temperature =
     Q0 Q_mod * frequency powr a Q_mod * exp (a Q_mod * g Q_mod * Tm / Q_temperature)"

definition accumulate ::
  "Q_model list \<Rightarrow> real \<Rightarrow> real nd \<Rightarrow> real nd \<Rightarrow> real nd \<times> real nd \<times> real nd \<Rightarrow> nat \<times> real nd
     \<Rightarrow> error + real nd \<times> real nd \<times> real nd" where
  "accumulate models frequency Tm Q_temperature acc item =
     (case (acc, item) of ((QS, QK', alpha), (i, f)) \<Rightarrow>
        if length models \<le> i then Inl IndexError
        else
          let Q_mod = models ! i in
          and_then (broadcast (Q_term Q_mod frequency) Tm Q_temperature) (\<lambda>factor.
          and_then (broadcast (*) f factor) (\<lambda>part.
          and_then (iadd QS part) (\<lambda>QS.
          and_then (iadd QK' (nd_map (\<lambda>x. x * QK Q_mod) f)) (\<lambda>QK'.
          and_then (iadd alpha (nd_map (\<lambda>x. x * a Q_mod) f)) (\<lambda>alpha.
          Inr (QS, QK', alpha)))))))"

text \<open>
  The \<open>try\<close> block after \<open>pressure = float(pressure)\<close>, lines 103 to 121. The condition
  of line 105 is the truth value of \<open>dT < temperature - Tm\<close>.
\<close>

definition Q_try ::
  "AttenuationModelGoes \<Rightarrow> fractions \<Rightarrow> real \<Rightarrow> real nd \<Rightarrow> real \<Rightarrow> real
     \<Rightarrow> error + real nd \<times> real nd \<times> real nd \<times> real nd" where
  "Q_try self fractions pressure temperature frequency dT =
     (let Tm = T_solidus_function self pressure in
      and_then (truth (nd_map (\<lambda>t. dT < t - Tm) temperature)) (\<lambda>frozen.
      let Q_temperature = (if frozen then Sc (Tm + dT) else temperature) in
      and_then (loop (accumulate (Q_models self) frequency (Sc Tm) Q_temperature)
                  (Sc 0, Sc 0, Sc 0) (enumerate_from0 (rows_of fractions))) (\<lambda>acc.
      case acc of (QS, QK', alpha) \<Rightarrow> Inr (QS, QK', alpha, Sc Tm))))"

text \<open>
  The \<open>except TypeError\<close> block, lines 124 to 140, entered when \<open>float(pressure)\<close>
  raised. Storing into a Python number (\<open>Q_temperature[idx] = ...\<close> for a temperature
  that is no array) raises TypeError.
\<close>

definition Q_except ::
  "AttenuationModelGoes \<Rightarrow> fractions \<Rightarrow> real nd \<Rightarrow> real nd \<Rightarrow> real \<Rightarrow> real
     \<Rightarrow> error + real nd \<times> real nd \<times> real nd \<times> real nd" where
  "Q_except self fractions pressure temperature frequency dT =
     (let Tm = nd_map (T_solidus_function self) pressure in
      and_then (broadcast (\<lambda>t tm. t > tm + dT) temperature Tm) (\<lambda>sel.
      case (temperature, sel, Tm) of
        (Ar ts, Ar sel, Ar tms) \<Rightarrow>
          and_then (put_where sel (map (\<lambda>tm. tm + dT) tms) ts) (\<lambda>Q_temperature.
          let zeros = Ar (replicate (length ts) 0) in
          and_then (loop (accumulate (Q_models self) frequency Tm (Ar Q_temperature))
                      (zeros, zeros, zeros) (enumerate_from0 (columns_of fractions))) (\<lambda>acc.
          case acc of (QS, QK', alpha) \<Rightarrow> Inr (QS, QK', alpha, Tm)))
      | other \<Rightarrow> Inl TypeError))"

text \<open>
  Lines 148 to 160. A truth value that raises ValueError leads to the \<open>except\<close>
  block; there \<open>QP\<close> has the length of \<open>temperature\<close> (\<open>np.zeros_like\<close>), and no
  position at all when \<open>temperature\<close> is a number.
\<close>

definition clamp_QP :: "real nd \<Rightarrow> real nd \<Rightarrow> error + real nd \<times> qval nd" where
  "clamp_QP temperature invQP =
     (case truth (nd_map (\<lambda>x. x < 0) invQP) of
        Inr negative \<Rightarrow>
          if negative then Inr (Sc 0, Sc Infinity)
          else Inr (invQP, nd_map reciprocal invQP)
      | Inl ValueError \<Rightarrow>
          (case (temperature, invQP) of
             (Ar ts, Ar xs) \<Rightarrow>
               let QP = replicate (length ts) (Finite 0);
                   sel = map (\<lambda>x. x \<le> 0) xs
               in
               and_then (fill_where sel 0 xs) (\<lambda>xs.
               and_then (fill_where sel Infinity QP) (\<lambda>QP.
               and_then (put_where (map (\<lambda>x. x > 0) xs) (map (\<lambda>x. Finite (1 / x)) xs) QP) (\<lambda>QP.
               Inr (Ar xs, Ar QP))))
           | other \<Rightarrow> Inl IndexError)
      | Inl e \<Rightarrow> Inl e)"

text \<open>
  Lines 142 to 160 as one step: from the elastic velocities, the temperature and the
  accumulated \<open>QS\<close> and \<open>QK\<close> to \<open>invQS\<close>, the clamped \<open>invQP\<close> and \<open>QP\<close>.
\<close>

definition Q_P_step ::
  "real nd \<Rightarrow> real nd \<Rightarrow> real nd \<Rightarrow> real nd \<Rightarrow> real nd \<Rightarrow> error + real nd \<times> real nd \<times> qval nd" where
  "Q_P_step elastic_Vp elastic_Vs temperature QS QK' =
     (let invQS = nd_map (\<lambda>q. 1 / q) QS;
          invQK = nd_map (\<lambda>q. 1 / q) QK'
      in
      and_then (broadcast (\<lambda>vs vp. 4 / 3 * (vs / vp)\<^sup>2) elastic_Vs elastic_Vp) (\<lambda>lmda.
      and_then (broadcast (\<lambda>l k. (1 - l) * k) lmda invQK) (\<lambda>bulk.
      and_then (broadcast (*) lmda invQS) (\<lambda>shear.
      and_then (broadcast (+) bulk shear) (\<lambda>invQP.
      and_then (clamp_QP temperature invQP) (\<lambda>clamped. case clamped of (invQP, QP) \<Rightarrow>
      Inr (invQS, invQP, QP)))))))"

text \<open>\<open>V * (1.0 - invQ / (2.0 * np.tan(np.pi * alpha / 2.0)))\<close>, lines 162 and 163.\<close>

definition correction :: "real nd \<Rightarrow> real nd \<Rightarrow> real nd \<Rightarrow> error + real nd" where
  "correction V invQ alpha =
     and_then (broadcast (\<lambda>q al. 1 - q / (2 * tan (pi * al / 2))) invQ alpha) (\<lambda>c.
     broadcast (*) V c)"

text \<open>
  The whole method. When the loop of line 113 makes no pass (\<open>fractions\<close> is empty),
  \<open>QS\<close> is still the Python float \<open>0.0\<close> of line 110 and \<open>1.0 / QS\<close> at line 142
  raises ZeroDivisionError; after one pass \<open>QS\<close> and \<open>QK\<close> are NumPy numbers or
  arrays, whose division by zero gives \<open>inf\<close> with a warning. Nothing between the
  loop and line 142 can raise, so that exception stands at the end of the block for
  numbers.
\<close>

definition anelastic_properties ::
  "AttenuationModelGoes \<Rightarrow> real nd \<Rightarrow> real nd \<Rightarrow> real nd \<Rightarrow> real nd \<Rightarrow> real \<Rightarrow> real
     \<Rightarrow> error + AnelasticProperties" where
  "anelastic_properties self elastic_Vp elastic_Vs pressure temperature frequency
       dT_Q_constant_above_solidus =
     and_then (model_mixing_function self pressure temperature) (\<lambda>fractions.
     and_then
       (case py_float pressure of
          Inr p \<Rightarrow>
            and_then (Q_try self fractions p temperature frequency dT_Q_constant_above_solidus)
              (\<lambda>acc. if rows_of fractions = [] then Inl ZeroDivisionError else Inr acc)
        | Inl e \<Rightarrow>
            Q_except self fractions pressure temperature frequency dT_Q_constant_above_solidus)
       (\<lambda>acc. case acc of (QS, QK', alpha, Tm) \<Rightarrow>
     and_then (Q_P_step elastic_Vp elastic_Vs temperature QS QK') (\<lambda>res.
     case res of (invQS, invQP, QP) \<Rightarrow>
     and_then (correction elastic_Vp invQP alpha) (\<lambda>anelastic_Vp.
     and_then (correction elastic_Vs invQS alpha) (\<lambda>anelastic_Vs.
     Inr \<lparr> V_P = anelastic_Vp, V_S = anelastic_Vs, Q_S = QS, Q_K = QK', Q_P = QP,
           T_solidus = Tm \<rparr>)))))"

text \<open>
  The three models of lines 251 to 282, over the solidus function (\<open>peridotite_solidus\<close>
  of \<open>profiles.py\<close> is not part of the sources at hand), and the single-material
  engine of the specification's example.
\<close>

definition Q4g :: "(real \<Rightarrow> real) \<Rightarrow> AttenuationModelGoes" where
  "Q4g peridotite_solidus =
     \<lparr> T_solidus_function = peridotite_solidus,
       model_mixing_function = mantle_domain_fractions,
       Q_models = [\<lparr> Q0 = 0.1, g = 38, a = 0.15, QK = 1000 \<rparr>,
                   \<lparr> Q0 = 3.5, g = 20, a = 0.15, QK = 1000 \<rparr>,
                   \<lparr> Q0 = 35, g = 10, a = 0.15, QK = 1000 \<rparr>] \<rparr>"

definition single_material_engine :: AttenuationModelGoes where
  "single_material_engine =
     \<lparr> T_solidus_function = (\<lambda>P. 1600),
       model_mixing_function = (\<lambda>P T. Inr (Vec [1])),
       Q_models = [\<lparr> Q0 = 35, g = 10, a = 0.15, QK = 1000 \<rparr>] \<rparr>"

section \<open>Properties of the lookup tables\<close>

subsection \<open>Auxiliary facts\<close>

lemma lower_char_idem: "lower_char (lower_char c) = lower_char c"
  by (auto simp add: lower_char_def ascii_uppercase_def ascii_lowercase_def
      split: option.splits if_splits)

lemma lower_idem: "lower (lower s) = lower s"
  by (simp add: lower_def lower_char_idem)

lemma pwl_node:
  "sorted_wrt (<) xs \<Longrightarrow> length vs = length xs \<Longrightarrow> i < length xs \<Longrightarrow> x = xs ! i \<Longrightarrow>
   pwl xs vs x = vs ! i"
proof (induction xs vs x arbitrary: i rule: pwl.induct)
  case (1 x0 x1 xs v0 v1 vs x)
  show ?case
  proof (cases i)
    case 0
    with 1 show ?thesis by simp
  next
    case (Suc k)
    note i = Suc
    show ?thesis
    proof (cases k)
      case 0
      with i 1 show ?thesis by auto
    next
      case (Suc m)
      from "1.prems" i Suc have a: "x0 < x" "x1 < x"
        by auto
      have "pwl (x1 # xs) (v1 # vs) x = (v1 # vs) ! k"
        using a "1.prems" i by (intro "1.IH") auto
      with a i show ?thesis by simp
    qed
  qed
qed simp_all






lemma np_unique_sorted: "sorted_wrt (<) (np_unique xs)"
  by (simp add: np_unique_def strict_sorted_iff)

lemma set_np_unique: "set (np_unique xs) = set xs"
  by (simp add: np_unique_def)

lemma np_unique_empty: "np_unique xs = [] \<longleftrightarrow> xs = []"
  using set_np_unique[of xs] by (metis set_empty)

lemma and_then_Inr_iff: "and_then r f = Inr y \<longleftrightarrow> (\<exists>v. r = Inr v \<and> f v = Inr y)"
  by (cases r) (simp_all add: and_then_def)

lemma and_then_Inl_iff: "and_then r f = Inl e \<longleftrightarrow> r = Inl e \<or> (\<exists>v. r = Inr v \<and> f v = Inl e)"
  by (cases r) (simp_all add: and_then_def)

lemma and_then_simps [simp]: "and_then (Inr v) f = f v" "and_then (Inl e) f = Inl e"
  by (simp_all add: and_then_def)

lemma collect_all_Inr: "collect (map (\<lambda>i. Inr (f i)) xs) = Inr (map f xs)"
  by (induction xs) simp_all

lemma collect_Inr_iff: "collect rs = Inr vs \<longleftrightarrow> rs = map Inr vs"
proof (induction rs arbitrary: vs)
  case (Cons r rs)
  then show ?case by (cases r; cases vs) (auto simp: and_then_Inr_iff)
qed auto

lemma slice_column_full:
  "step + i * step \<le> length tab \<Longrightarrow>
   slice_column tab (i * step) (step + i * step) c = map (\<lambda>j. tab ! (i * step + j) ! c) [0..<step]"
  by (auto simp: slice_column_def list_eq_iff_nth_eq)

lemma assign_column_full: "length v = n \<Longrightarrow> assign_column n v = Inr v"
  by (simp add: assign_column_def)

lemma field_grid_full:
  assumes "np * step \<le> length tab"
  shows "field_grid tab step np c =
           Inr (map (\<lambda>j. map (\<lambda>i. tab ! (i * step + j) ! c) [0..<np]) [0..<step])"
proof -
  have le: "step + i * step \<le> length tab" if "i < np" for i
  proof -
    have "(Suc i) * step \<le> np * step" using that by (intro mult_le_mono1) simp
    with assms show ?thesis by simp
  qed
  have "assign_column step (slice_column tab (i * step) (step + i * step) c)
          = Inr (map (\<lambda>j. tab ! (i * step + j) ! c) [0..<step])" if "i < np" for i
    using le[OF that] by (simp add: slice_column_full assign_column_full)
  then have eq: "map (\<lambda>i. assign_column step (slice_column tab (0 + i * step) (step + i * step) c)) [0..<np]
      = map (\<lambda>i. Inr (map (\<lambda>j. tab ! (i * step + j) ! c) [0..<step])) [0..<np]"
    by (intro map_cong) simp_all
  show ?thesis
    unfolding field_grid_def eq collect_all_Inr by (simp add: o_def)
qed

lemma init_InrD:
  assumes "SeismicLookupTable_init tab = Inr self"
  shows "tab \<noteq> []"
    and "pres self = np_unique (column tab 0)"
    and "temp self = np_unique (column tab 1)"
    and "n_uniq_p self = length (pres self)"
    and "n_uniq_t self = length (temp self)"
    and "pstep self = length (temp self)"
    and "table self = tab"
    and "fields' self name = Some (c, G, u) \<Longrightarrow>
           field_grid tab (pstep self) (n_uniq_p self) c = Inr G \<and> lower name = name \<and> 2 \<le> c \<and> c < 10"
    and "2 \<le> length (pres self)"
    and "2 \<le> length (temp self)"
proof -
  show "2 \<le> length (pres self)" "2 \<le> length (temp self)"
    using assms
    by (auto simp: SeismicLookupTable_init_def Let_def and_then_Inr_iff interp2d_def split: if_splits)
  show "tab \<noteq> []" using assms
    by (auto simp: SeismicLookupTable_init_def Let_def np_max_def np_unique_empty column_def and_then_Inr_iff split: if_splits)
  show "pres self = np_unique (column tab 0)" "temp self = np_unique (column tab 1)"
    "n_uniq_p self = length (pres self)" "n_uniq_t self = length (temp self)"  "pstep self = length (temp self)"
    "table self = tab"
    using assms
    by (auto simp: SeismicLookupTable_init_def Let_def and_then_Inr_iff split: if_splits)
  show "field_grid tab (pstep self) (n_uniq_p self) c = Inr G \<and> lower name = name \<and> 2 \<le> c \<and> c < 10"
    if "fields' self name = Some (c, G, u)"
    using assms that
    by (auto simp: SeismicLookupTable_init_def Let_def and_then_Inr_iff lower_def lower_char_def
         ascii_uppercase_def ascii_lowercase_def  split: if_splits)
qed

lemma init_valid:
  fixes tab :: "real list list"
  defines "ps \<equiv> np_unique (column tab 0)" and "ts \<equiv> np_unique (column tab 1)"
  defines "G \<equiv> \<lambda>c. map (\<lambda>j. map (\<lambda>i. tab ! (i * length ts + j) ! c) [0..<length ps]) [0..<length ts]"
  assumes "tab \<noteq> []" and "\<forall>row\<in>set tab. 10 \<le> length row"
    and "length ps * length ts \<le> length tab"
    and "2 \<le> length ps" and "2 \<le> length ts"
  shows "SeismicLookupTable_init tab =
     Inr \<lparr> table = tab, pres = ps, temp = ts,
              n_uniq_p = length ps, n_uniq_t = length ts,
              t_max = Max (set ts), t_min = Min (set ts), p_max = Max (set ps), p_min = Min (set ps),
              pstep = length ts,
              fields' = [''vp'' \<mapsto> (2, G 2, ''km/s''),
                         ''vs'' \<mapsto> (3, G 3, ''km/s''),
                         ''vp_ani'' \<mapsto> (4, G 4, ''km/s''),
                         ''vs_ani'' \<mapsto> (5, G 5, ''km/s''),
                         ''vphi'' \<mapsto> (6, G 6, ''km/s''),
                         ''density'' \<mapsto> (7, G 7, ''$kg/m^3$''),
                         ''qs'' \<mapsto> (8, G 8, ''Hz''),
                         ''t_sol'' \<mapsto> (9, G 9, ''K'')],
              vp_interp = bilinear ps ts (G 2), vs_interp = bilinear ps ts (G 3),
              vp_an_interp = bilinear ps ts (G 4), vs_an_interp = bilinear ps ts (G 5),
              vphi_interp = bilinear ps ts (G 6), density_interp = bilinear ps ts (G 7),
              qs_interp = bilinear ps ts (G 8), t_sol_interp = bilinear ps ts (G 9) \<rparr>"
proof -
  have ne: "ps \<noteq> []" "ts \<noteq> []"
    using assms(4) by (simp_all add: ps_def ts_def np_unique_empty column_def)
  have "2 * 2 \<le> length ps * length ts" using assms(7,8) by (intro mult_le_mono)
  then have w: "\<not> (length tab < 2 \<or> (\<exists>row\<in>set tab. length row < 10))"
    using assms(5,6) by auto
  have g: "field_grid tab (length ts) (length ps) c = Inr (G c)" for c
    using assms(6) by (simp add: field_grid_full G_def)
  have i: "interp2d ps ts (G c) = Inr (bilinear ps ts (G c))" for c
    using assms(7,8) by (simp add: interp2d_def G_def)
  show ?thesis
    unfolding SeismicLookupTable_init_def Let_def
    by (simp only: w if_False ps_def[symmetric] ts_def[symmetric] g i and_then_simps np_max_def np_min_def ne)
qed

lemma example_axes:
  "np_unique (column example_table 0) = [0, 100000000]"
  "np_unique (column example_table 1) = [500, 1000, 1500]"
  by (simp_all add: example_table_def np_unique_def column_def)

lemma collect_Inl: "collect rs = Inl e \<Longrightarrow> Inl e \<in> set rs"
  by (induction rs) (auto simp: and_then_Inl_iff)

lemma field_grid_Inl: "field_grid tab step n c = Inl e \<Longrightarrow> e = ValueError"
  by (auto simp: field_grid_def and_then_Inl_iff assign_column_def dest!: collect_Inl split: if_splits)

lemma interp2d_Inl: "interp2d x y z = Inl e \<Longrightarrow> e = ValueError \<or> e = FitpackError"
  by (auto simp: interp2d_def split: if_splits)

lemma init_not_spec_error:
  "SeismicLookupTable_init tab = Inl e \<Longrightarrow> e = IndexError \<or> e = ValueError \<or> e = FitpackError"
  by (auto simp: SeismicLookupTable_init_def Let_def and_then_Inl_iff np_max_def np_min_def
        dest: field_grid_Inl interp2d_Inl split: if_splits)

lemma query_grid_lower: "query_grid self (lower s) = query_grid self s"
  by (simp add: query_grid_def lower_idem)

lemma init_extrema:
  assumes "SeismicLookupTable_init tab = Inr self"
  shows "p_max self = Max (set (pres self))" "p_min self = Min (set (pres self))"
        "t_max self = Max (set (temp self))" "t_min self = Min (set (temp self))"
        "pres self \<noteq> []" "temp self \<noteq> []"
  using assms
  by (auto simp: SeismicLookupTable_init_def Let_def and_then_Inr_iff np_max_def np_min_def split: if_splits)

lemma field_grid_shape:
  assumes "field_grid tab step n c = Inr G"
  shows "length G = step" "\<forall>row\<in>set G. length row = n"
proof -
  from assms obtain cols where c: "collect (map (\<lambda>i. assign_column step
        (slice_column tab (0 + i * step) (step + i * step) c)) [0..<n]) = Inr cols"
     and G: "G = map (\<lambda>j. map (\<lambda>col. col ! j) cols) [0..<step]"
    by (auto simp: field_grid_def and_then_Inr_iff)
  from c have "length cols = n"
    by (auto simp: collect_Inr_iff dest!: arg_cong[where f=length])
  with G show "length G = step" "\<forall>row\<in>set G. length row = n" by auto
qed

lemma checked_loaded:
  assumes "SeismicLookupTable_init tab = Inr self"
  shows "checked self (Std (Seq press)) (Std (Seq temps)) rest =
     ((if \<exists>v\<in>set press. v > p_max self then [exceeds_message ''pressure''] else []) @
      (if \<exists>v\<in>set press. v < p_min self then [below_message ''pressure''] else []) @
      (if \<exists>v\<in>set temps. v > t_max self then [exceeds_message ''temperature''] else []) @
      (if \<exists>v\<in>set temps. v < t_min self then [below_message ''temperature''] else []), rest)"
  using init_extrema[OF assms]
  by (simp add: checked_def check_bounds_def np_max_def np_min_def Let_def)

lemma query_grid_loaded:
  assumes "SeismicLookupTable_init tab = Inr self"
    and "fields' self (lower field) = Some (c, G, u)"
  shows "query_grid self field = Inr (bilinear (pres self) (temp self) G)"
proof -
  from init_InrD(8)[OF assms(1,2)] have "field_grid tab (pstep self) (n_uniq_p self) c = Inr G" by simp
  from field_grid_shape[OF this] init_InrD(4,5,6,9,10)[OF assms(1)]
  show ?thesis
    by (simp add: query_grid_def assms(2) interp2d_def)
qed

lemma example_loaded:
  "\<exists>self. SeismicLookupTable_init example_table = Inr self
     \<and> pres self = [0, 100000000] \<and> temp self = [500, 1000, 1500]
     \<and> n_uniq_p self = 2 \<and> n_uniq_t self = 3 \<and> pstep self = 3
     \<and> p_min self = 0 \<and> p_max self = 100000000 \<and> t_min self = 500 \<and> t_max self = 1500
     \<and> fields' self ''vs'' = Some (3, [[3, 33], [13, 43], [23, 53]], ''km/s'')
     \<and> fields' self ''qs'' = Some (8, [[8, 38], [18, 48], [28, 58]], ''Hz'')
     \<and> query_grid self ''vs'' =
           Inr (bilinear [0, 100000000] [500, 1000, 1500] [[3, 33], [13, 43], [23, 53]])"
proof -
  have "example_table \<noteq> []" "\<forall>row\<in>set example_table. 10 \<le> length row"
    by (simp_all add: example_table_def)
  moreover have "length (np_unique (column example_table 0)) * length (np_unique (column example_table 1))
                   \<le> length example_table"
    unfolding example_axes by (simp add: example_table_def)
  ultimately have "SeismicLookupTable_init example_table = Inr
     \<lparr> table = example_table, pres = [0, 100000000], temp = [500, 1000, 1500],
              n_uniq_p = 2, n_uniq_t = 3,
              t_max = 1500, t_min = 500, p_max = 100000000, p_min = 0,
              pstep = 3,
              fields' = [''vp'' \<mapsto> (2, [[2, 32], [12, 42], [22, 52]], ''km/s''),
                         ''vs'' \<mapsto> (3, [[3, 33], [13, 43], [23, 53]], ''km/s''),
                         ''vp_ani'' \<mapsto> (4, [[4, 34], [14, 44], [24, 54]], ''km/s''),
                         ''vs_ani'' \<mapsto> (5, [[5, 35], [15, 45], [25, 55]], ''km/s''),
                         ''vphi'' \<mapsto> (6, [[6, 36], [16, 46], [26, 56]], ''km/s''),
                         ''density'' \<mapsto> (7, [[7, 37], [17, 47], [27, 57]], ''$kg/m^3$''),
                         ''qs'' \<mapsto> (8, [[8, 38], [18, 48], [28, 58]], ''Hz''),
                         ''t_sol'' \<mapsto> (9, [[9, 39], [19, 49], [29, 59]], ''K'')],
              vp_interp = bilinear [0, 100000000] [500, 1000, 1500] [[2, 32], [12, 42], [22, 52]],
              vs_interp = bilinear [0, 100000000] [500, 1000, 1500] [[3, 33], [13, 43], [23, 53]],
              vp_an_interp = bilinear [0, 100000000] [500, 1000, 1500] [[4, 34], [14, 44], [24, 54]],
              vs_an_interp = bilinear [0, 100000000] [500, 1000, 1500] [[5, 35], [15, 45], [25, 55]],
              vphi_interp = bilinear [0, 100000000] [500, 1000, 1500] [[6, 36], [16, 46], [26, 56]],
              density_interp = bilinear [0, 100000000] [500, 1000, 1500] [[7, 37], [17, 47], [27, 57]],
              qs_interp = bilinear [0, 100000000] [500, 1000, 1500] [[8, 38], [18, 48], [28, 58]],
              t_sol_interp = bilinear [0, 100000000] [500, 1000, 1500] [[9, 39], [19, 49], [29, 59]] \<rparr>"
    using init_valid[of example_table] unfolding example_axes
    by (simp add: example_table_def upt_rec)
  then show ?thesis
    by (simp add: query_grid_def interp2d_def lower_def lower_char_def ascii_uppercase_def ascii_lowercase_def)
qed

lemma bilinear_node:
  assumes "sorted_wrt (<) xs" "sorted_wrt (<) ys" "length z = length ys"
    and "\<forall>row\<in>set z. length row = length xs" and "i < length xs" and "j < length ys"
  shows "bilinear xs ys z (xs ! i) (ys ! j) = z ! j ! i"
proof -
  have "bilinear xs ys z (xs ! i) (ys ! j) = map (\<lambda>row. pwl xs row (xs ! i)) z ! j"
    unfolding bilinear_def using assms by (intro pwl_node) simp_all
  also have "\<dots> = pwl xs (z ! j) (xs ! i)" using assms by simp
  also have "\<dots> = z ! j ! i" using assms by (intro pwl_node) simp_all
  finally show ?thesis .
qed

lemma init_grid_shape:
  assumes "SeismicLookupTable_init tab = Inr self" and "fields' self name = Some (c, G, u)"
  shows "length G = length (temp self)" "\<forall>row\<in>set G. length row = length (pres self)"
proof -
  from init_InrD(8)[OF assms] have "field_grid tab (pstep self) (n_uniq_p self) c = Inr G" by simp
  from field_grid_shape[OF this] init_InrD(4,6)[OF assms(1)]
  show "length G = length (temp self)" "\<forall>row\<in>set G. length row = length (pres self)" by simp_all
qed

lemma init_sorted:
  assumes "SeismicLookupTable_init tab = Inr self"
  shows "sorted_wrt (<) (pres self)" "sorted_wrt (<) (temp self)"
  using init_InrD(2,3)[OF assms] by (simp_all add: np_unique_sorted)

lemma check_bounds_inside:
  assumes "xs \<noteq> []" "x \<in> set xs"
  shows "check_bounds (Std (Seq [x])) xs TP = Inr []"
  using assms by (auto simp: check_bounds_def np_max_def np_min_def Let_def not_less)




subsection \<open>Construction of the table\<close>

text \<open>
  Claim C2, as the code has it. The constructor compares nothing: it never fails with
  MalformedTableError (its only failures are the IndexError of a table with fewer than
  two rows or fewer than ten columns, the ValueError of a block of rows cut short, and
  the error of \<open>interp2d\<close> for an axis with a single knot). Every table with ten
  columns, at least two pressures and two temperatures, whose row count is
  \<open>n_uniq_p * n_uniq_t\<close> is constructed, whatever the order of the temperatures
  within its pressure blocks, and the object has \<open>n_uniq_p * n_uniq_t\<close> equal to the
  number of rows.
\<close>

theorem init_validation:
  "SeismicLookupTable_init tab \<noteq> Inl MalformedTableError \<and>
   (tab \<noteq> [] \<and> (\<forall>row\<in>set tab. 10 \<le> length row) \<and>
    2 \<le> length (np_unique (column tab 0)) \<and> 2 \<le> length (np_unique (column tab 1)) \<and>
    length tab = length (np_unique (column tab 0)) * length (np_unique (column tab 1)) \<longrightarrow>
    (\<exists>self. SeismicLookupTable_init tab = Inr self \<and> n_uniq_p self * n_uniq_t self = length tab))"
proof (intro conjI impI)
  show "SeismicLookupTable_init tab \<noteq> Inl MalformedTableError"
    using init_not_spec_error[of tab MalformedTableError] by auto
next
  assume a: "tab \<noteq> [] \<and> (\<forall>row\<in>set tab. 10 \<le> length row) \<and>
    2 \<le> length (np_unique (column tab 0)) \<and> 2 \<le> length (np_unique (column tab 1)) \<and>
    length tab = length (np_unique (column tab 0)) * length (np_unique (column tab 1))"
  then show "\<exists>self. SeismicLookupTable_init tab = Inr self \<and> n_uniq_p self * n_uniq_t self = length tab"
    using init_valid[of tab] by simp
qed

text \<open>The table of the docstring is constructed, with two pressures times three temperatures for its six rows.\<close>

theorem init_validation_witness:
  "\<exists>self. SeismicLookupTable_init example_table = Inr self \<and> n_uniq_p self * n_uniq_t self = length example_table"
proof -
  have "example_table \<noteq> []" "\<forall>row\<in>set example_table. 10 \<le> length row"
    by (simp_all add: example_table_def)
  moreover have "2 \<le> length (np_unique (column example_table 0))"
    "2 \<le> length (np_unique (column example_table 1))"
    unfolding example_axes by simp_all
  moreover have "length example_table =
      length (np_unique (column example_table 0)) * length (np_unique (column example_table 1))"
    unfolding example_axes by (simp add: example_table_def)
  ultimately show ?thesis using init_validation[of example_table] by blast
qed

text \<open>
  Against C2 as stated: \<open>swapped_table\<close> has five rows for two pressures and two
  temperatures, and the temperature sequences of its two pressure blocks differ, yet
  its construction succeeds.
\<close>

theorem init_validation_counterexample:
  "length swapped_table \<noteq> length (np_unique (column swapped_table 0)) * length (np_unique (column swapped_table 1))
   \<and> column (take 2 swapped_table) 1 \<noteq> column (take 2 (drop 2 swapped_table)) 1
   \<and> (\<exists>self. SeismicLookupTable_init swapped_table = Inr self)"
proof -
  have ax: "np_unique (column swapped_table 0) = [0, 100000000]" "np_unique (column swapped_table 1) = [500, 1000]"
    by (simp_all add: swapped_table_def np_unique_def column_def)
  have "swapped_table \<noteq> []" "\<forall>row\<in>set swapped_table. 10 \<le> length row" by (simp_all add: swapped_table_def)
  moreover have "length (np_unique (column swapped_table 0)) * length (np_unique (column swapped_table 1)) \<le> length swapped_table"
    unfolding ax by (simp add: swapped_table_def)
  moreover have "2 \<le> length (np_unique (column swapped_table 0))"
    "2 \<le> length (np_unique (column swapped_table 1))"
    unfolding ax by simp_all
  ultimately have "\<exists>self. SeismicLookupTable_init swapped_table = Inr self"
    using init_valid[of swapped_table] by simp
  moreover have "length swapped_table \<noteq> length (np_unique (column swapped_table 0)) * length (np_unique (column swapped_table 1))"
    unfolding ax by (simp add: swapped_table_def)
  moreover have "column (take 2 swapped_table) 1 \<noteq> column (take 2 (drop 2 swapped_table)) 1"
    by (simp add: swapped_table_def column_def)
  ultimately show ?thesis by blast
qed

subsection \<open>Field names\<close>

text \<open>
  Claim C10. Both queries look the field up under \<open>field.lower()\<close>, so a query with
  a name and the query with the lowercase of that name are the same query: same
  printed lines, same value or same exception. Every key of the field dictionary of a
  constructed table is its own lowercase. \<open>'Vs'\<close>, \<open>'VS'\<close> and \<open>'vs'\<close> name one field.
\<close>

theorem field_lookup_case_insensitive:
  "interp_grid self press temps s = interp_grid self press temps (lower s)
   \<and> interp_points self press temps s = interp_points self press temps (lower s)
   \<and> (SeismicLookupTable_init tab = Inr self' \<longrightarrow> (\<forall>k\<in>dom (fields' self'). lower k = k))
   \<and> lower ''Vs'' = ''vs'' \<and> lower ''VS'' = ''vs'' \<and> lower ''vs'' = ''vs''"
proof -
  have "\<forall>k\<in>dom (fields' self'). lower k = k" if "SeismicLookupTable_init tab = Inr self'"
  proof
    fix k assume "k \<in> dom (fields' self')"
    then obtain c G u where "fields' self' k = Some (c, G, u)" by (auto simp: dom_def)
    from init_InrD(8)[OF that this] show "lower k = k" by simp
  qed
  moreover have "lower ''Vs'' = ''vs''" "lower ''VS'' = ''vs''" "lower ''vs'' = ''vs''"
    by (simp_all add: lower_def lower_char_def ascii_uppercase_def ascii_lowercase_def)
  ultimately show ?thesis
    by (simp add: interp_grid_def interp_points_def query_grid_lower)
qed

text \<open>On the table of the docstring, by the names \<open>'Vs'\<close>, \<open>'VS'\<close> and the key \<open>'qs'\<close>.\<close>

theorem field_lookup_case_insensitive_witness:
  "\<exists>self. SeismicLookupTable_init example_table = Inr self
     \<and> interp_points self (Std (Num 0)) (Std (Num 500)) ''Vs'' = interp_points self (Std (Num 0)) (Std (Num 500)) ''vs''
     \<and> interp_grid self (Std (Num 0)) (Std (Num 500)) ''VS'' = interp_grid self (Std (Num 0)) (Std (Num 500)) ''vs''
     \<and> ''qs'' \<in> dom (fields' self) \<and> lower ''qs'' = ''qs''"
proof -
  from example_loaded obtain self where s: "SeismicLookupTable_init example_table = Inr self"
    and q: "fields' self ''qs'' = Some (8, [[8, 38], [18, 48], [28, 58]], ''Hz'')"
    by blast
  have "lower ''qs'' = ''qs''"
    using field_lookup_case_insensitive[of self "Std (Num 0)" "Std (Num 500)" "''qs''" example_table self] s q
    by (auto simp: dom_def)
  then show ?thesis
    using field_lookup_case_insensitive[of self "Std (Num 0)" "Std (Num 500)" "''Vs''" example_table self]
     field_lookup_case_insensitive[of self "Std (Num 0)" "Std (Num 500)" "''VS''" example_table self] s q
    by (intro exI[of _ self]) auto
qed

subsection \<open>Point queries\<close>

text \<open>
  Claim C8, as the code has it. \<open>interp_points\<close> never fails with
  DimensionMismatchError. On a loaded table and a field whose interpolant \<open>grid\<close>
  was built, it fails with IndexError when there are fewer temperatures than
  pressures; when there are at least as many temperatures as pressures it returns an
  array of \<open>len(pressures)\<close> entries, the \<open>i\<close>-th being the interpolant at
  \<open>(pressures[i], temperatures[i])\<close>, and ignores the surplus temperatures.
\<close>

theorem interp_points_lengths:
  "snd (interp_points self (Std press) (Std temps) field) \<noteq> Inl DimensionMismatchError \<and>
   (SeismicLookupTable_init tab = Inr self \<and> query_grid self field = Inr grid \<longrightarrow>
     (length (promote temps) < length (promote press) \<longrightarrow>
        snd (interp_points self (Std press) (Std temps) field) = Inl IndexError) \<and>
     (length (promote press) \<le> length (promote temps) \<longrightarrow>
        (\<exists>out. snd (interp_points self (Std press) (Std temps) field) = Inr out \<and>
               length out = length (promote press) \<and>
               (\<forall>i<length (promote press). out ! i = grid (promote press ! i) (promote temps ! i)))))"
proof (intro conjI impI)
  show "snd (interp_points self (Std press) (Std temps) field) \<noteq> Inl DimensionMismatchError"
    by (auto simp: interp_points_def Let_def checked_def check_bounds_def np_max_def np_min_def
         query_grid_def interp2d_def and_then_Inl_iff  split: sum.splits option.splits if_splits)
next
  assume "SeismicLookupTable_init tab = Inr self \<and> query_grid self field = Inr grid"
  then have l: "SeismicLookupTable_init tab = Inr self" and a: "query_grid self field = Inr grid"
    by simp_all
  { assume "length (promote temps) < length (promote press)"
    then show "snd (interp_points self (Std press) (Std temps) field) = Inl IndexError"
      using a by (simp add: interp_points_def Let_def checked_loaded[OF l]) }
  { assume "length (promote press) \<le> length (promote temps)"
    then show "\<exists>out. snd (interp_points self (Std press) (Std temps) field) = Inr out \<and>
               length out = length (promote press) \<and>
               (\<forall>i<length (promote press). out ! i = grid (promote press ! i) (promote temps ! i))"
      using a by (simp add: interp_points_def Let_def checked_loaded[OF l]) }
qed

text \<open>On the table of the docstring: two pressures and one temperature fail; one pair gives one value.\<close>

theorem interp_points_lengths_witness:
  "\<exists>self. SeismicLookupTable_init example_table = Inr self
     \<and> snd (interp_points self (Std (Seq [0, 100000000])) (Std (Seq [500])) ''vs'') = Inl IndexError
     \<and> (\<exists>out. snd (interp_points self (Std (Seq [50000000])) (Std (Seq [750])) ''vs'') = Inr out \<and> length out = 1
            \<and> out ! 0 = 23)"
proof -
  define grid where "grid = bilinear [0, 100000000] [500, 1000, 1500] [[3, 33], [13, 43], [23, 53]]"
  from example_loaded obtain self where s: "SeismicLookupTable_init example_table = Inr self"
    and g: "query_grid self ''vs'' = Inr grid"
    unfolding grid_def by blast
  have v: "grid 50000000 750 = 23"
    by (simp add: grid_def bilinear_def)
  have "snd (interp_points self (Std (Seq [0, 100000000])) (Std (Seq [500])) ''vs'') = Inl IndexError"
    using interp_points_lengths[of self "Seq [0, 100000000]" "Seq [500]" "''vs''" example_table grid] s g
    by simp
  moreover have "\<exists>out. snd (interp_points self (Std (Seq [50000000])) (Std (Seq [750])) ''vs'') = Inr out
        \<and> length out = 1 \<and> out ! 0 = 23"
    using interp_points_lengths[of self "Seq [50000000]" "Seq [750]" "''vs''" example_table grid] s g v
    by simp
  ultimately show ?thesis using s by blast
qed

text \<open>
  Against C8 as stated: one pressure and two temperatures are sequences of unequal
  length, and the query returns a value.
\<close>

theorem interp_points_lengths_counterexample:
  "\<exists>self. SeismicLookupTable_init example_table = Inr self
     \<and> length [50000000 :: real] \<noteq> length [750, 1250 :: real]
     \<and> snd (interp_points self (Std (Seq [50000000])) (Std (Seq [750, 1250])) ''vs'') = Inr [23]"
proof -
  define grid where "grid = bilinear [0, 100000000] [500, 1000, 1500] [[3, 33], [13, 43], [23, 53]]"
  from example_loaded obtain self where s: "SeismicLookupTable_init example_table = Inr self"
    and g: "query_grid self ''vs'' = Inr grid"
    unfolding grid_def by blast
  have v: "grid 50000000 750 = 23"
    by (simp add: grid_def bilinear_def)
  have "snd (interp_points self (Std (Seq [50000000])) (Std (Seq [750, 1250])) ''vs'') = Inr [23]"
    using g v by (simp add: interp_points_def checked_loaded[OF s])
  then show ?thesis using s by auto
qed

subsection \<open>Exact values at the grid nodes\<close>

text \<open>
  Claim C7. On a table constructed from \<open>n_uniq_p * n_uniq_t\<close> rows, the point query
  at the node \<open>(pres[i], temp[j])\<close> prints nothing and returns the one-element array
  holding \<open>FieldGrid[j, i]\<close>, the second component of the field's dictionary entry;
  that grid value is the entry of table row \<open>i * pstep + j\<close> in the field's column
  \<open>c\<close>. Exactness is that of real arithmetic.
\<close>

theorem interp_points_at_node:
  assumes "SeismicLookupTable_init tab = Inr self"
    and "length tab = n_uniq_p self * n_uniq_t self"
    and "i < n_uniq_p self" and "j < n_uniq_t self"
    and "fields' self (lower field) = Some (c, FieldGrid, unit)"
  shows "interp_points self (Std (Seq [pres self ! i])) (Std (Seq [temp self ! j])) field = ([], Inr [FieldGrid ! j ! i])
       \<and> FieldGrid ! j ! i = tab ! (i * pstep self + j) ! c"
proof -
  note d = init_InrD[OF assms(1)]
  have ij: "i < length (pres self)" "j < length (temp self)" using assms(3,4) d(4,5) by simp_all
  have ne: "pres self \<noteq> []" "temp self \<noteq> []" using ij by auto
  have g: "query_grid self field = Inr (bilinear (pres self) (temp self) FieldGrid)"
    using query_grid_loaded[OF assms(1,5)] .
  have v: "bilinear (pres self) (temp self) FieldGrid (pres self ! i) (temp self ! j) = FieldGrid ! j ! i"
    using init_sorted[OF assms(1)] init_grid_shape[OF assms(1,5)] ij by (intro bilinear_node) simp_all
  have c1: "check_bounds (Std (Seq [pres self ! i])) (pres self) ''pressure'' = Inr []"
    using ne ij by (intro check_bounds_inside) simp_all
  have c2: "check_bounds (Std (Seq [temp self ! j])) (temp self) ''temperature'' = Inr []"
    using ne ij by (intro check_bounds_inside) simp_all
  have first: "interp_points self (Std (Seq [pres self ! i])) (Std (Seq [temp self ! j])) field = ([], Inr [FieldGrid ! j ! i])"
    by (simp add: interp_points_def checked_def c1 c2 g v)
  have "field_grid tab (pstep self) (n_uniq_p self) c = Inr FieldGrid"
    using d(8)[OF assms(5)] by simp
  moreover have "field_grid tab (pstep self) (n_uniq_p self) c =
     Inr (map (\<lambda>j. map (\<lambda>i. tab ! (i * pstep self + j) ! c) [0..<n_uniq_p self]) [0..<pstep self])"
    using assms(2) d(5,6) by (intro field_grid_full) simp
  ultimately have "FieldGrid = map (\<lambda>j. map (\<lambda>i. tab ! (i * pstep self + j) ! c) [0..<n_uniq_p self]) [0..<pstep self]"
    by simp
  then have "FieldGrid ! j ! i = tab ! (i * pstep self + j) ! c"
    using assms(3,4) d(5,6) by simp
  with first show ?thesis by simp
qed

text \<open>On the table of the docstring: the node of the second pressure and the second temperature, row 4, column 3.\<close>

theorem interp_points_at_node_witness:
  "\<exists>self. SeismicLookupTable_init example_table = Inr self
     \<and> interp_points self (Std (Seq [100000000])) (Std (Seq [1000])) ''Vs'' = ([], Inr [43])
     \<and> example_table ! (1 * 3 + 1) ! 3 = 43"
proof -
  from example_loaded obtain self where s: "SeismicLookupTable_init example_table = Inr self"
    and ax: "pres self = [0, 100000000]" "temp self = [500, 1000, 1500]"
       "n_uniq_p self = 2" "n_uniq_t self = 3" "pstep self = 3"
    and f: "fields' self ''vs'' = Some (3, [[3, 33], [13, 43], [23, 53]], ''km/s'')"
    by blast
  have l: "lower ''Vs'' = ''vs''"
    by (simp add: lower_def lower_char_def ascii_uppercase_def ascii_lowercase_def)
  have "length example_table = n_uniq_p self * n_uniq_t self"
    by (simp add: ax example_table_def)
  from interp_points_at_node[OF s this, of 1 1 "''Vs''" 3 "[[3, 33], [13, 43], [23, 53]]" "''km/s''"] ax f l
  have "interp_points self (Std (Seq [100000000])) (Std (Seq [1000])) ''Vs'' = ([], Inr [43])
      \<and> (43::real) = example_table ! (1 * 3 + 1) ! 3"
    by simp
  with s show ?thesis by auto
qed

subsection \<open>Queries outside the sampled range\<close>




subsection \<open>Interpolation between two compositions\<close>

text \<open>
  Rounding, evaluated: in the binade of \<open>2 ^ e\<close> the last place is
  \<open>2 ^ max (e - 52) (- 1074)\<close>, and an integer below \<open>2 ^ 53\<close> in magnitude is a
  double.
\<close>

lemma rne_of_int: "rne (of_int m) = m"
  by (simp add: rne_def)

lemma ulp_exponent_eval:
  assumes "2 powi e \<le> \<bar>x\<bar>" and "\<bar>x\<bar> < 2 powi (e + 1)"
  shows "ulp_exponent x = max (e - 52) (- 1074)"
proof -
  have "0 < (2::real) powi e" by simp
  then have pos: "0 < \<bar>x\<bar>" using assms(1) by linarith
  have a: "2 powr (real_of_int e) = 2 powi e"
    by (rule powr_real_of_int') simp_all
  have "2 powr (real_of_int (e + 1)) = 2 powi (e + 1)"
    by (rule powr_real_of_int') simp_all
  then have b: "2 powr (real_of_int e + 1) = 2 powi (e + 1)" by simp
  have "\<lfloor>log 2 \<bar>x\<bar>\<rfloor> = e"
    using pos assms by (subst floor_log_eq_powr_iff) (simp_all add: a b)
  then show ?thesis by (simp add: ulp_exponent_def)
qed

lemma fl_eval:
  assumes "2 powi e \<le> \<bar>x\<bar>" and "\<bar>x\<bar> < 2 powi (e + 1)"
  shows "fl x = of_int (rne (x / 2 powi (max (e - 52) (- 1074)))) * 2 powi (max (e - 52) (- 1074))"
proof -
  have "0 < (2::real) powi e" by simp
  then have "0 < \<bar>x\<bar>" using assms(1) by linarith
  then have "x \<noteq> 0" by simp
  then show ?thesis by (simp add: fl_def ulp_exponent_eval[OF assms])
qed

lemma fl_of_int:
  assumes "\<bar>n\<bar> < 2 ^ 53"
  shows "fl (of_int n) = of_int n"
proof (cases "n = 0")
  case True
  then show ?thesis by (simp add: fl_def)
next
  case False
  define x :: real where "x = of_int n"
  define e where "e = \<lfloor>log 2 \<bar>x\<bar>\<rfloor>"
  have x1: "1 \<le> \<bar>x\<bar>" using False by (simp add: x_def flip: of_int_abs)
  have x2: "\<bar>x\<bar> < 2 ^ 53" using assms unfolding x_def
    by (metis of_int_abs of_int_less_iff of_int_numeral of_int_power)
  have e0: "0 \<le> e" unfolding e_def using x1 by simp
  have "log 2 \<bar>x\<bar> < 53"
    using x1 x2 by (subst log_less_iff) (simp_all add: powr_realpow[of 2 53, simplified])
  then have e52: "e \<le> 52" unfolding e_def by linarith
  define k where "k = nat (52 - e)"
  have q: "ulp_exponent x = - int k"
    using e0 e52 by (simp add: ulp_exponent_def e_def[symmetric] k_def)
  have "x / 2 powi (- int k) = of_int (n * 2 ^ k)"
    by (simp add: x_def power_int_minus field_simps)
  then have "rne (x / 2 powi (- int k)) = n * 2 ^ k"
    by (simp only: rne_of_int)
  moreover have "x \<noteq> 0" using False by (simp add: x_def)
  ultimately have "fl x = of_int (n * 2 ^ k) * 2 powi (- int k)"
    unfolding fl_def q by simp
  also have "\<dots> = x"
    by (simp add: x_def power_int_minus field_simps)
  finally show ?thesis by (simp add: x_def)
qed

lemma to_double_of_int:
  assumes "\<bar>n\<bar> < 2 ^ 53"
  shows "to_double (of_int n) = Fin (of_int n)"
proof -
  have "\<bar>real_of_int n\<bar> < 2 ^ 53"
    using assms by (metis of_int_abs of_int_less_iff of_int_numeral of_int_power)
  also have "(2::real) ^ 53 < 2 ^ 1024" by simp
  finally show ?thesis by (simp add: to_double_def fl_of_int[OF assms])
qed

lemma to_double_0: "to_double 0 = Fin 0"
  by (simp add: to_double_def fl_def)

lemma small_integers_are_doubles:
  "to_double 1 = Fin 1" "to_double 2 = Fin 2" "to_double 3 = Fin 3" "to_double 4 = Fin 4"
  "to_double 6 = Fin 6" "to_double 8 = Fin 8" "to_double 12 = Fin 12" "to_double 49 = Fin 49"
  "to_double (- 1) = Fin (- 1)" "to_double (- 2) = Fin (- 2)" "to_double (- 4) = Fin (- 4)"
  using to_double_of_int[of 1] to_double_of_int[of 2] to_double_of_int[of 3]
    to_double_of_int[of 4] to_double_of_int[of 6] to_double_of_int[of 8]
    to_double_of_int[of 12] to_double_of_int[of 49]
    to_double_of_int[of "- 1"] to_double_of_int[of "- 2"] to_double_of_int[of "- 4"]
  by simp_all

text \<open>
  With two samples the clipped index is 1 wherever \<open>cnew\<close> lies, so the call
  evaluates \<open>line_value\<close> on the samples in ascending order of composition.
\<close>

lemma linear_interp_1d_two_points:
  assumes "length vals1 = length vals2"
  shows "linear_interp_1d vals1 vals2 c1 c2 cnew =
     Inr (if c1 \<le> c2 then map (\<lambda>(v1, v2). line_value c1 c2 cnew v1 v2) (zip vals1 vals2)
          else map (\<lambda>(v2, v1). line_value c2 c1 cnew v2 v1) (zip vals2 vals1))"
  using assms
  by (auto simp: linear_interp_1d_def Let_def searchsorted_def)

text \<open>
  At the lower abscissa a finite slope is multiplied by zero and the sum is the lower
  value; an infinite or undefined slope gives nan there. Where no operation rounds,
  the value is the one of the straight line.
\<close>

lemma line_value_at_lo:
  assumes "is_double ylo" and "fdiv (fsub (Fin yhi) (Fin ylo)) (fsub (Fin x_hi) (Fin x_lo)) = Fin s"
  shows "line_value x_lo x_hi x_lo ylo yhi = Fin ylo"
  using assms by (simp add: line_value_def fsub_def is_double_def to_double_0)

lemma line_value_exact:
  assumes "exact_line x_lo x_hi cnew ylo yhi" and "x_lo \<noteq> x_hi"
  shows "line_value x_lo x_hi cnew ylo yhi = Fin ((yhi - ylo) / (x_hi - x_lo) * (cnew - x_lo) + ylo)"
  using assms by (simp add: line_value_def fsub_def is_double_def exact_line_def)

text \<open>
  Claim C9, as the code has it. For two samples of one length at distinct
  compositions \<open>c1\<close> and \<open>c2\<close>: at every \<open>cnew\<close>, inside the interval of \<open>c1\<close> and
  \<open>c2\<close> or outside, the result is \<open>line_value\<close> on the samples in ascending order of
  composition, component by component, so no value is clamped. At \<open>cnew = c1\<close> the
  result is \<open>vals1\<close> when \<open>c1\<close> is the lower composition, the values of \<open>vals1\<close> are
  doubles and the slopes are finite. For a component in which no operation rounds,
  the result is the value of the straight line through the two samples, and at a
  \<open>cnew\<close> outside the interval it is neither endpoint value if the samples differ.
\<close>

theorem linear_interp_1d_extrapolates:
  "c1 \<noteq> c2 \<and> length vals1 = length vals2 \<longrightarrow>
     linear_interp_1d vals1 vals2 c1 c2 cnew =
       Inr (if c1 < c2 then map (\<lambda>(v1, v2). line_value c1 c2 cnew v1 v2) (zip vals1 vals2)
            else map (\<lambda>(v2, v1). line_value c2 c1 cnew v2 v1) (zip vals2 vals1)) \<and>
     (c1 < c2 \<and> (\<forall>k<length vals1. is_double (vals1 ! k) \<and>
          (\<exists>s. fdiv (fsub (Fin (vals2 ! k)) (Fin (vals1 ! k))) (fsub (Fin c2) (Fin c1)) = Fin s)) \<longrightarrow>
        linear_interp_1d vals1 vals2 c1 c2 c1 = Inr (map Fin vals1)) \<and>
     (\<forall>k<length vals1.
        (if c1 < c2 then exact_line c1 c2 cnew (vals1 ! k) (vals2 ! k)
         else exact_line c2 c1 cnew (vals2 ! k) (vals1 ! k)) \<longrightarrow>
        (\<exists>out. linear_interp_1d vals1 vals2 c1 c2 cnew = Inr out \<and>
           out ! k = Fin (vals1 ! k + (vals2 ! k - vals1 ! k) * (cnew - c1) / (c2 - c1)) \<and>
           ((cnew < min c1 c2 \<or> max c1 c2 < cnew) \<and> vals1 ! k \<noteq> vals2 ! k \<longrightarrow>
              out ! k \<noteq> Fin (vals1 ! k) \<and> out ! k \<noteq> Fin (vals2 ! k))))"
proof (intro impI)
  assume a: "c1 \<noteq> c2 \<and> length vals1 = length vals2"
  then have ne: "c1 \<noteq> c2" and len: "length vals1 = length vals2" by simp_all
  have general: "linear_interp_1d vals1 vals2 c1 c2 x =
       Inr (if c1 < c2 then map (\<lambda>(v1, v2). line_value c1 c2 x v1 v2) (zip vals1 vals2)
            else map (\<lambda>(v2, v1). line_value c2 c1 x v2 v1) (zip vals2 vals1))" for x
    using ne by (simp add: linear_interp_1d_two_points[OF len])
  have at_c1: "linear_interp_1d vals1 vals2 c1 c2 c1 = Inr (map Fin vals1)"
    if h: "c1 < c2 \<and> (\<forall>k<length vals1. is_double (vals1 ! k) \<and>
          (\<exists>s. fdiv (fsub (Fin (vals2 ! k)) (Fin (vals1 ! k))) (fsub (Fin c2) (Fin c1)) = Fin s))"
  proof -
    have "map (\<lambda>(v1, v2). line_value c1 c2 c1 v1 v2) (zip vals1 vals2) = map Fin vals1"
    proof (rule nth_equalityI)
      show "length (map (\<lambda>(v1, v2). line_value c1 c2 c1 v1 v2) (zip vals1 vals2)) = length (map Fin vals1)"
        using len by simp
    next
      fix k assume "k < length (map (\<lambda>(v1, v2). line_value c1 c2 c1 v1 v2) (zip vals1 vals2))"
      then have k: "k < length vals1" "k < length vals2" using len by simp_all
      from h k obtain s where "is_double (vals1 ! k)"
        "fdiv (fsub (Fin (vals2 ! k)) (Fin (vals1 ! k))) (fsub (Fin c2) (Fin c1)) = Fin s"
        by blast
      then have "line_value c1 c2 c1 (vals1 ! k) (vals2 ! k) = Fin (vals1 ! k)"
        by (rule line_value_at_lo)
      then show "map (\<lambda>(v1, v2). line_value c1 c2 c1 v1 v2) (zip vals1 vals2) ! k = map Fin vals1 ! k"
        using k by simp
    qed
    then show ?thesis using h by (simp add: general)
  qed
  have exact: "\<exists>out. linear_interp_1d vals1 vals2 c1 c2 cnew = Inr out \<and>
           out ! k = Fin (vals1 ! k + (vals2 ! k - vals1 ! k) * (cnew - c1) / (c2 - c1)) \<and>
           ((cnew < min c1 c2 \<or> max c1 c2 < cnew) \<and> vals1 ! k \<noteq> vals2 ! k \<longrightarrow>
              out ! k \<noteq> Fin (vals1 ! k) \<and> out ! k \<noteq> Fin (vals2 ! k))"
    if k: "k < length vals1"
      and e: "if c1 < c2 then exact_line c1 c2 cnew (vals1 ! k) (vals2 ! k)
         else exact_line c2 c1 cnew (vals2 ! k) (vals1 ! k)" for k
  proof -
    define L where "L = vals1 ! k + (vals2 ! k - vals1 ! k) * (cnew - c1) / (c2 - c1)"
    have k2: "k < length vals2" using k len by simp
    have v: "(if c1 < c2 then map (\<lambda>(v1, v2). line_value c1 c2 cnew v1 v2) (zip vals1 vals2)
            else map (\<lambda>(v2, v1). line_value c2 c1 cnew v2 v1) (zip vals2 vals1)) ! k = Fin L"
    proof (cases "c1 < c2")
      case True
      then have "line_value c1 c2 cnew (vals1 ! k) (vals2 ! k) =
          Fin ((vals2 ! k - vals1 ! k) / (c2 - c1) * (cnew - c1) + vals1 ! k)"
        using e ne by (intro line_value_exact) simp_all
      also have "(vals2 ! k - vals1 ! k) / (c2 - c1) * (cnew - c1) + vals1 ! k = L"
        by (simp add: L_def)
      finally show ?thesis using True k k2 by simp
    next
      case False
      then have "line_value c2 c1 cnew (vals2 ! k) (vals1 ! k) =
          Fin ((vals1 ! k - vals2 ! k) / (c1 - c2) * (cnew - c2) + vals2 ! k)"
        using e ne by (intro line_value_exact) simp_all
      also have "(vals1 ! k - vals2 ! k) / (c1 - c2) * (cnew - c2) + vals2 ! k = L"
        using ne by (simp add: L_def field_simps)
      finally show ?thesis using False k k2 by simp
    qed
    have out: "L \<noteq> vals1 ! k \<and> L \<noteq> vals2 ! k"
      if o: "(cnew < min c1 c2 \<or> max c1 c2 < cnew) \<and> vals1 ! k \<noteq> vals2 ! k"
    proof -
      from o have d: "cnew \<noteq> c1" "cnew \<noteq> c2" "vals1 ! k \<noteq> vals2 ! k" by auto
      have "L \<noteq> vals1 ! k" unfolding L_def using d ne by simp
      moreover have "L \<noteq> vals2 ! k"
      proof
        assume "L = vals2 ! k"
        then have "(vals2 ! k - vals1 ! k) * ((cnew - c1) / (c2 - c1) - 1) = 0"
          by (simp add: L_def algebra_simps)
        then have "(cnew - c1) / (c2 - c1) = 1" using d by simp
        then show False using d ne by (simp add: field_simps)
      qed
      ultimately show ?thesis by simp
    qed
    show ?thesis
      unfolding general L_def[symmetric] using v out by auto
  qed
  from general at_c1 exact
  show "linear_interp_1d vals1 vals2 c1 c2 cnew =
       Inr (if c1 < c2 then map (\<lambda>(v1, v2). line_value c1 c2 cnew v1 v2) (zip vals1 vals2)
            else map (\<lambda>(v2, v1). line_value c2 c1 cnew v2 v1) (zip vals2 vals1)) \<and>
     (c1 < c2 \<and> (\<forall>k<length vals1. is_double (vals1 ! k) \<and>
          (\<exists>s. fdiv (fsub (Fin (vals2 ! k)) (Fin (vals1 ! k))) (fsub (Fin c2) (Fin c1)) = Fin s)) \<longrightarrow>
        linear_interp_1d vals1 vals2 c1 c2 c1 = Inr (map Fin vals1)) \<and>
     (\<forall>k<length vals1.
        (if c1 < c2 then exact_line c1 c2 cnew (vals1 ! k) (vals2 ! k)
         else exact_line c2 c1 cnew (vals2 ! k) (vals1 ! k)) \<longrightarrow>
        (\<exists>out. linear_interp_1d vals1 vals2 c1 c2 cnew = Inr out \<and>
           out ! k = Fin (vals1 ! k + (vals2 ! k - vals1 ! k) * (cnew - c1) / (c2 - c1)) \<and>
           ((cnew < min c1 c2 \<or> max c1 c2 < cnew) \<and> vals1 ! k \<noteq> vals2 ! k \<longrightarrow>
              out ! k \<noteq> Fin (vals1 ! k) \<and> out ! k \<noteq> Fin (vals2 ! k))))"
    by blast
qed

text \<open>
  Two components with the samples \<open>[8, 4]\<close> and \<open>[10, 5]\<close> at the compositions 0 and 1,
  where no operation rounds: at the first composition the result is the first
  sample, and beyond the second composition it is the value of the line, in either
  order of the compositions.
\<close>

theorem linear_interp_1d_extrapolates_witness:
  "linear_interp_1d [8, 4] [10, 5] 0 1 0 = Inr [Fin 8, Fin 4] \<and>
   linear_interp_1d [8, 4] [10, 5] 0 1 2 = Inr [Fin 12, Fin 6] \<and>
   linear_interp_1d [8, 4] [10, 5] 1 0 2 = Inr [Fin 6, Fin 3]"
proof -
  have two: "k < Suc (Suc 0) \<longleftrightarrow> k = 0 \<or> k = Suc 0" for k by auto
  have slopes: "fdiv (fsub (Fin 10) (Fin 8)) (fsub (Fin 1) (Fin 0)) = Fin 2"
    "fdiv (fsub (Fin 5) (Fin 4)) (fsub (Fin 1) (Fin 0)) = Fin 1"
    by (simp_all add: fsub_def small_integers_are_doubles)
  have "linear_interp_1d [8, 4] [10, 5] 0 1 0 = Inr (map Fin [8, 4])"
    by (rule linear_interp_1d_extrapolates[of 0 1 "[8, 4]" "[10, 5]" 0,
          THEN mp, THEN conjunct2, THEN conjunct1, THEN mp])
       (simp_all add: two is_double_def small_integers_are_doubles slopes)
  then have at_first: "linear_interp_1d [8, 4] [10, 5] 0 1 0 = Inr [Fin 8, Fin 4]"
    by simp
  have e: "exact_line 0 1 2 8 10" "exact_line 0 1 2 4 5"
    by (simp_all add: exact_line_def is_double_def small_integers_are_doubles)
  have beyond: "linear_interp_1d [8, 4] [10, 5] 0 1 2 = Inr [Fin 12, Fin 6]"
    using linear_interp_1d_extrapolates[of 0 1 "[8, 4]" "[10, 5]" 2] e
    by (simp add: line_value_exact)
  have e': "exact_line 0 1 2 10 8" "exact_line 0 1 2 5 4"
    by (simp_all add: exact_line_def is_double_def small_integers_are_doubles)
  have swapped: "linear_interp_1d [8, 4] [10, 5] 1 0 2 = Inr [Fin 6, Fin 3]"
    using linear_interp_1d_extrapolates[of 1 0 "[8, 4]" "[10, 5]" 2] e'
    by (simp add: line_value_exact)
  from at_first beyond swapped show ?thesis by simp
qed

text \<open>
  Against C9 as stated: the sample \<open>[1.]\<close> at the composition 49 and the sample \<open>[0.]\<close>
  at the composition 0, evaluated at 49. The samples are sorted, the slope is the
  double nearest to 1/49, which is \<open>5882252574524729 / 2 ^ 58\<close>, and its product with
  49 rounds to \<open>1 - 2 ^ -53\<close>, the double below 1: the result at \<open>c1\<close> is not \<open>vals1\<close>.
\<close>

theorem linear_interp_1d_extrapolates_counterexample:
  "is_double 1 \<and> is_double 0 \<and> is_double 49 \<and>
   linear_interp_1d [1] [0] 49 0 49 = Inr [Fin (9007199254740991 / 9007199254740992)] \<and>
   linear_interp_1d [1] [0] 49 0 49 \<noteq> Inr (map Fin [1])"
proof -
  have f1: "fl (1 / 49) = 5882252574524729 / 2 ^ 58"
  proof -
    have "fl (1 / 49) = of_int (rne ((1 / 49) / 2 powi (max (- 6 - 52) (- 1074)))) * 2 powi (max (- 6 - 52) (- 1074))"
      by (rule fl_eval) (simp_all add: power_int_minus)
    also have "\<dots> = 5882252574524729 / 2 ^ 58"
      by (simp add: rne_def Let_def power_int_minus)
    finally show ?thesis .
  qed
  have f2: "fl (288230376151711721 / 288230376151711744) = 9007199254740991 / 9007199254740992"
  proof -
    have "fl (288230376151711721 / 288230376151711744) =
        of_int (rne ((288230376151711721 / 288230376151711744) / 2 powi (max (- 1 - 52) (- 1074))))
          * 2 powi (max (- 1 - 52) (- 1074))"
      by (rule fl_eval) (simp_all add: power_int_minus)
    also have "\<dots> = 9007199254740991 / 9007199254740992"
      by (simp add: rne_def Let_def power_int_minus)
    finally show ?thesis .
  qed
  have f3: "fl (9007199254740991 / 9007199254740992) = 9007199254740991 / 9007199254740992"
  proof -
    have "fl (9007199254740991 / 9007199254740992) =
        of_int (rne ((9007199254740991 / 9007199254740992) / 2 powi (max (- 1 - 52) (- 1074))))
          * 2 powi (max (- 1 - 52) (- 1074))"
      by (rule fl_eval) (simp_all add: power_int_minus)
    also have "\<dots> = 9007199254740991 / 9007199254740992"
      by (simp add: rne_def Let_def power_int_minus)
    finally show ?thesis .
  qed
  have d2: "to_double (1 / 49) = Fin (5882252574524729 / 2 ^ 58)"
    by (simp add: to_double_def f1)
  have d3: "to_double (288230376151711721 / 288230376151711744) = Fin (9007199254740991 / 9007199254740992)"
    by (simp add: to_double_def f2)
  have d4: "to_double (9007199254740991 / 9007199254740992) = Fin (9007199254740991 / 9007199254740992)"
    by (simp add: to_double_def f3)
  have "line_value 0 49 49 0 1 = Fin (9007199254740991 / 9007199254740992)"
    by (simp add: line_value_def fsub_def small_integers_are_doubles to_double_0 d2 d3 d4)
  then have v: "linear_interp_1d [1] [0] 49 0 49 = Inr [Fin (9007199254740991 / 9007199254740992)]"
    by (simp add: linear_interp_1d_two_points)
  have i: "is_double 1" "is_double 0" "is_double 49"
    by (simp_all add: is_double_def small_integers_are_doubles to_double_0)
  from v i show ?thesis by simp
qed

section \<open>Properties of the attenuation model\<close>

subsection \<open>Domain fractions\<close>

text \<open>
  For two numbers the function returns the vector of the \<open>if\<close> chain; its components
  lie between 0 and 1 and sum to 1. For two arrays of one length, two elements or
  more, it returns one \<open>batch_row\<close> per pair. The two agree at every temperature at
  which the blending band of the upper boundary ends below the band of the lower one.
\<close>

lemma fractions_scalar:
  "mantle_domain_fractions (Sc p) (Sc t) =
     Inr (Vec (if p < pressure_tztop t - P_smooth_halfwidth then [1, 0, 0]
               else if p < pressure_tztop t + P_smooth_halfwidth
                 then [1 - (p - (pressure_tztop t - P_smooth_halfwidth)) / (2 * P_smooth_halfwidth),
                       (p - (pressure_tztop t - P_smooth_halfwidth)) / (2 * P_smooth_halfwidth), 0]
               else if p < pressure_tzbase t - P_smooth_halfwidth then [0, 1, 0]
               else if p < pressure_tzbase t + P_smooth_halfwidth
                 then [0, 1 - (p - (pressure_tzbase t - P_smooth_halfwidth)) / (2 * P_smooth_halfwidth),
                       (p - (pressure_tzbase t - P_smooth_halfwidth)) / (2 * P_smooth_halfwidth)]
               else [0, 0, 1]))"
  by (simp add: mantle_domain_fractions_def fractions_try_def below_def blend_def store_pair_def Let_def)

lemma fractions_scalar_sum:
  "\<exists>fr. mantle_domain_fractions (Sc p) (Sc t) = Inr (Vec fr) \<and> length fr = 3 \<and> sum_list fr = 1
        \<and> (\<forall>x\<in>set fr. 0 \<le> x \<and> x \<le> 1)"
  unfolding fractions_scalar
  by (auto simp: P_smooth_halfwidth_def field_simps)

lemma fractions_batch:
  assumes "length ps = length ts" "2 \<le> length ps"
  shows "mantle_domain_fractions (Ar ps) (Ar ts) =
     Inr (Mat 3 (map (\<lambda>(p, t). batch_row ((p - (pressure_tztop t - P_smooth_halfwidth)) / (2 * P_smooth_halfwidth))
                                      ((p - (pressure_tzbase t - P_smooth_halfwidth)) / (2 * P_smooth_halfwidth)))
                   (zip ps ts)))"
proof -
  obtain p1 p2 ps' where ps: "ps = p1 # p2 # ps'" using assms(2) by (cases ps; cases "tl ps") auto
  obtain t1 t2 ts' where ts: "ts = t1 # t2 # ts'" using assms ps by (cases ts; cases "tl ts") auto
  have "fractions_try (Ar ps) (Ar ts) = Inl ValueError"
    using assms(1) unfolding ps ts
    by (simp add: fractions_try_def below_def Let_def)
  moreover have "fractions_except (Ar ps) (Ar ts) = Inr (Mat 3 (map (\<lambda>(p, t). batch_row ((p - (pressure_tztop t - P_smooth_halfwidth)) / (2 * P_smooth_halfwidth))
                                      ((p - (pressure_tzbase t - P_smooth_halfwidth)) / (2 * P_smooth_halfwidth)))
                   (zip ps ts)))"
    using assms(1)
    by (simp add: fractions_except_def blend_def zip_map2 zip_map1 o_def split_def zip_same_conv_map
        list_eq_iff_nth_eq)
  ultimately show ?thesis by (simp add: mantle_domain_fractions_def)
qed

lemma batch_row_disjoint_bands:
  assumes "pressure_tztop t + P_smooth_halfwidth \<le> pressure_tzbase t - P_smooth_halfwidth"
  shows "mantle_domain_fractions (Sc p) (Sc t) =
     Inr (Vec (batch_row ((p - (pressure_tztop t - P_smooth_halfwidth)) / (2 * P_smooth_halfwidth))
                         ((p - (pressure_tzbase t - P_smooth_halfwidth)) / (2 * P_smooth_halfwidth))))"
proof -
  define H where "H = P_smooth_halfwidth"
  define top where "top = pressure_tztop t"
  define base where "base = pressure_tzbase t"
  have H: "0 < H" by (simp add: H_def P_smooth_halfwidth_def)
  have tb: "top + H \<le> base - H" using assms by (simp add: H_def top_def base_def)
  have u: "(p - (top - H)) / (2 * H) \<le> 0 \<longleftrightarrow> p \<le> top - H"
          "(p - (top - H)) / (2 * H) \<ge> 0 \<longleftrightarrow> p \<ge> top - H"
          "(p - (top - H)) / (2 * H) \<le> 1 \<longleftrightarrow> p \<le> top + H"
          "(p - (top - H)) / (2 * H) \<ge> 1 \<longleftrightarrow> p \<ge> top + H"
          "(p - (base - H)) / (2 * H) \<le> 0 \<longleftrightarrow> p \<le> base - H"
          "(p - (base - H)) / (2 * H) \<ge> 0 \<longleftrightarrow> p \<ge> base - H"
          "(p - (base - H)) / (2 * H) \<le> 1 \<longleftrightarrow> p \<le> base + H"
          "(p - (base - H)) / (2 * H) \<ge> 1 \<longleftrightarrow> p \<ge> base + H"
    using H by (simp_all add: field_simps)
  have "(if p < top - H then [1, 0, 0]
               else if p < top + H
                 then [1 - (p - (top - H)) / (2 * H), (p - (top - H)) / (2 * H), 0]
               else if p < base - H then [0, 1, 0]
               else if p < base + H
                 then [0, 1 - (p - (base - H)) / (2 * H), (p - (base - H)) / (2 * H)]
               else [0, 0, 1]) = batch_row ((p - (top - H)) / (2 * H)) ((p - (base - H)) / (2 * H))"
    unfolding batch_row_def Let_def u
    using H tb by (auto simp: field_simps)
  then show ?thesis
    unfolding fractions_scalar H_def top_def base_def by simp
qed

text \<open>
  Claim C3, at an input where the array block departs from it. At 4000 K the two
  blending bands overlap (the upper boundary is at 18.9 GPa, the lower one at
  18.95 GPa, each band 1.1 GPa to either side). For the pair (18.9 GPa, 4000 K) in a
  batch of two, the store of the first band leaves \<open>[1/2, 1/2, 0]\<close> and the store of
  the second band overwrites the last two components: the row is
  \<open>[1/2, 23/44, 21/44]\<close>, of sum 3/2. For the same pair as two numbers, the \<open>elif\<close>
  chain stops at the first band and returns \<open>[1/2, 1/2, 0]\<close>.
\<close>

theorem batch_fractions_overlapping_bands:
  "mantle_domain_fractions (Ar [18900000000, 18900000000]) (Ar [4000, 4000]) =
     Inr (Mat 3 [[1/2, 23/44, 21/44], [1/2, 23/44, 21/44]])
   \<and> sum_list [1/2, 23/44, 21/44 :: real] = 3/2
   \<and> mantle_domain_fractions (Sc 18900000000) (Sc 4000) = Inr (Vec [1/2, 1/2, 0])"
  unfolding fractions_scalar
  by (simp add: fractions_batch batch_row_def pressure_tztop_def pressure_tzbase_def T_ref_def P_smooth_halfwidth_def)

subsection \<open>The block for numbers\<close>

lemma loop_scalar:
  assumes "k + length fs \<le> length models"
  shows "loop (accumulate models frequency (Sc tm) (Sc qt)) (Sc s1, Sc s2, Sc s3)
           (zip [k..<k + length fs] (map Sc fs)) =
         Inr (Sc (s1 + (\<Sum>i<length fs. fs ! i * Q_term (models ! (k + i)) frequency tm qt)),
              Sc (s2 + (\<Sum>i<length fs. fs ! i * QK (models ! (k + i)))),
              Sc (s3 + (\<Sum>i<length fs. fs ! i * a (models ! (k + i)))))"
  using assms
proof (induction fs arbitrary: k s1 s2 s3)
  case Nil
  then show ?case by simp
next
  case (Cons f fs)
  have z: "zip [k..<k + length (f # fs)] (map Sc (f # fs)) = (k, Sc f) # zip [Suc k..<Suc k + length fs] (map Sc fs)"
  proof -
    have "[k..<k + length (f # fs)] = k # [Suc k..<Suc k + length fs]"
      by (simp add: upt_conv_Cons del: upt_Suc)
    then show ?thesis by simp
  qed
  have step: "accumulate models frequency (Sc tm) (Sc qt) (Sc s1, Sc s2, Sc s3) (k, Sc f) =
      Inr (Sc (s1 + f * Q_term (models ! k) frequency tm qt), Sc (s2 + f * QK (models ! k)), Sc (s3 + f * a (models ! k)))"
    using Cons.prems by (simp add: accumulate_def Let_def)
  have ih: "loop (accumulate models frequency (Sc tm) (Sc qt))
     (Sc (s1 + f * Q_term (models ! k) frequency tm qt), Sc (s2 + f * QK (models ! k)), Sc (s3 + f * a (models ! k)))
     (zip [Suc k..<Suc k + length fs] (map Sc fs)) =
    Inr (Sc (s1 + f * Q_term (models ! k) frequency tm qt + (\<Sum>i<length fs. fs ! i * Q_term (models ! (Suc k + i)) frequency tm qt)),
         Sc (s2 + f * QK (models ! k) + (\<Sum>i<length fs. fs ! i * QK (models ! (Suc k + i)))),
         Sc (s3 + f * a (models ! k) + (\<Sum>i<length fs. fs ! i * a (models ! (Suc k + i)))))"
    using Cons.prems by (intro Cons.IH) simp
  have shift: "(\<Sum>i<length (f # fs). (f # fs) ! i * F (k + i)) = f * F k + (\<Sum>i<length fs. fs ! i * F (Suc k + i))"
    for F :: "nat \<Rightarrow> real"
    by (simp add: sum.lessThan_Suc_shift del: sum.lessThan_Suc)
  show ?case
    unfolding z shift[of "\<lambda>n. Q_term (models ! n) frequency tm qt"]
      shift[of "\<lambda>n. QK (models ! n)"] shift[of "\<lambda>n. a (models ! n)"]
    by (simp only: loop.simps step and_then_simps ih add.assoc)
qed

lemma anelastic_scalar:
  fixes self :: AttenuationModelGoes and fr :: "real list"
    and P T dT frequency Vp Vs :: real
  defines "Tm \<equiv> T_solidus_function self P"
  defines "Q_temperature \<equiv> (if dT < T - Tm then Tm + dT else T)"
  defines "QS \<equiv> (\<Sum>i<length fr. fr ! i * Q_term (Q_models self ! i) frequency Tm Q_temperature)"
  defines "QK' \<equiv> (\<Sum>i<length fr. fr ! i * QK (Q_models self ! i))"
  defines "alpha \<equiv> (\<Sum>i<length fr. fr ! i * a (Q_models self ! i))"
  defines "lmda \<equiv> 4 / 3 * (Vs / Vp)\<^sup>2"
  defines "invQP \<equiv> (1 - lmda) * (1 / QK') + lmda * (1 / QS)"
  assumes "model_mixing_function self (Sc P) (Sc T) = Inr (Vec fr)"
    and "length fr \<le> length (Q_models self)" and "fr \<noteq> []"
  shows "anelastic_properties self (Sc Vp) (Sc Vs) (Sc P) (Sc T) frequency dT =
     Inr \<lparr> V_P = Sc (Vp * (1 - (if invQP < 0 then 0 else invQP) / (2 * tan (pi * alpha / 2)))),
           V_S = Sc (Vs * (1 - (1 / QS) / (2 * tan (pi * alpha / 2)))),
           Q_S = Sc QS, Q_K = Sc QK',
           Q_P = Sc (if invQP < 0 then Infinity else reciprocal invQP),
           T_solidus = Sc Tm \<rparr>"
proof -
  have l: "loop (accumulate (Q_models self) frequency (Sc Tm) (Sc Q_temperature)) (Sc 0, Sc 0, Sc 0)
           (zip [0..<0 + length fr] (map Sc fr)) = Inr (Sc (0 + QS), Sc (0 + QK'), Sc (0 + alpha))"
    unfolding QS_def QK'_def alpha_def using assms(9) by (subst loop_scalar) simp_all
  have q: "(if dT < T - Tm then Sc (Tm + dT) else Sc T) = Sc Q_temperature"
    by (simp add: Q_temperature_def)
  have t: "Q_try self (Vec fr) P (Sc T) frequency dT = Inr (Sc QS, Sc QK', Sc alpha, Sc Tm)"
    using l by (simp add: Q_try_def Let_def enumerate_from0_def Tm_def[symmetric] q)
  show ?thesis
    using assms(10)
    by (simp add: anelastic_properties_def Q_P_step_def assms(8) t Let_def clamp_QP_def
        correction_def lmda_def invQP_def)
qed

lemma anelastic_empty_fractions:
  assumes "model_mixing_function self (Sc P) (Sc T) = Inr (Vec [])"
  shows "anelastic_properties self (Sc Vp) (Sc Vs) (Sc P) (Sc T) frequency dT = Inl ZeroDivisionError"
  by (simp add: anelastic_properties_def assms Q_try_def Let_def enumerate_from0_def)

text \<open>
  The rule of lines 103 to 121 for numbers as arguments, a mixing function that
  answers with a non-empty vector of fractions and a parameter dictionary for each
  fraction: the call returns, its \<open>T_solidus\<close> is \<open>Tm\<close>, and its \<open>Q_S\<close> is the sum over
  the materials of \<open>f * Q0 * frequency ^ a * exp(a * g * Tm / Q_temperature)\<close>, where
  \<open>Q_temperature\<close> is \<open>Tm + dT\<close> when \<open>T - Tm > dT\<close> and \<open>T\<close> otherwise. The frequency
  is positive, and neither \<open>Q_temperature\<close> nor \<open>elastic_Vp\<close> is zero (the divisors of
  lines 118 and 145). The single-material engine of the specification at its solidus
  gives \<open>35 * exp(1.5)\<close>.
\<close>

lemma Q_S_rule:
  assumes "model_mixing_function self (Sc P) (Sc T) = Inr (Vec fr)"
    and "length fr \<le> length (Q_models self)" and "fr \<noteq> []"
    and "0 < frequency" and "Vp \<noteq> 0"
    and "(if T - T_solidus_function self P > dT then T_solidus_function self P + dT else T) \<noteq> 0"
  shows "(\<exists>r. anelastic_properties self (Sc Vp) (Sc Vs) (Sc P) (Sc T) frequency dT = Inr r
            \<and> T_solidus r = Sc (T_solidus_function self P)
            \<and> Q_S r = Sc (\<Sum>i<length fr. fr ! i *
                  (Q0 (Q_models self ! i) * frequency powr a (Q_models self ! i) *
                   exp (a (Q_models self ! i) * g (Q_models self ! i) * T_solidus_function self P /
                        (if T - T_solidus_function self P > dT then T_solidus_function self P + dT
                         else T)))))
       \<and> (\<exists>r. anelastic_properties single_material_engine (Sc 8000) (Sc 4500) (Sc P') (Sc 1600) 1 0 = Inr r
             \<and> Q_S r = Sc (35 * exp (3 / 2)))"
proof
  show "\<exists>r. anelastic_properties self (Sc Vp) (Sc Vs) (Sc P) (Sc T) frequency dT = Inr r
            \<and> T_solidus r = Sc (T_solidus_function self P)
            \<and> Q_S r = Sc (\<Sum>i<length fr. fr ! i *
                  (Q0 (Q_models self ! i) * frequency powr a (Q_models self ! i) *
                   exp (a (Q_models self ! i) * g (Q_models self ! i) * T_solidus_function self P /
                        (if T - T_solidus_function self P > dT then T_solidus_function self P + dT
                         else T))))"
    unfolding anelastic_scalar[OF assms(1,2,3)] by (simp add: Q_term_def)
next
  have m: "model_mixing_function single_material_engine (Sc P') (Sc 1600) = Inr (Vec [1])"
    "length [1::real] \<le> length (Q_models single_material_engine)" "[1::real] \<noteq> []"
    by (simp_all add: single_material_engine_def)
  show "\<exists>r. anelastic_properties single_material_engine (Sc 8000) (Sc 4500) (Sc P') (Sc 1600) 1 0 = Inr r
             \<and> Q_S r = Sc (35 * exp (3 / 2))"
    unfolding anelastic_scalar[OF m]
    by (simp add: Q_term_def single_material_engine_def)
qed

text \<open>The same engine 100 K above its solidus with an offset of 50 K: frozen at 1650 K.\<close>

lemma Q_S_rule_example:
  "\<exists>r. anelastic_properties single_material_engine (Sc 8000) (Sc 4500) (Sc 0) (Sc 1700) 1 50 = Inr r
      \<and> T_solidus r = Sc 1600 \<and> Q_S r = Sc (35 * exp (3 / 2 * 1600 / 1650))"
proof -
  have m: "model_mixing_function single_material_engine (Sc 0) (Sc 1700) = Inr (Vec [1])"
    "length [1::real] \<le> length (Q_models single_material_engine)" "[1::real] \<noteq> []"
    by (simp_all add: single_material_engine_def)
  have "(\<exists>r. anelastic_properties single_material_engine (Sc 8000) (Sc 4500) (Sc 0) (Sc 1700) 1 50 = Inr r
            \<and> T_solidus r = Sc (T_solidus_function single_material_engine 0)
            \<and> Q_S r = Sc (\<Sum>i<length [1::real]. [1] ! i *
                  (Q0 (Q_models single_material_engine ! i) * 1 powr a (Q_models single_material_engine ! i) *
                   exp (a (Q_models single_material_engine ! i) * g (Q_models single_material_engine ! i)
                        * T_solidus_function single_material_engine 0 /
                        (if 1700 - T_solidus_function single_material_engine 0 > 50
                         then T_solidus_function single_material_engine 0 + 50
                         else 1700)))))"
    using Q_S_rule[OF m, where frequency = 1 and Vp = 8000 and Vs = 4500 and dT = 50]
    by (simp add: single_material_engine_def)
  then show ?thesis by (simp add: single_material_engine_def)
qed

subsection \<open>The clamp of 1/Q\_P\<close>

lemma clamp_QP_scalar:
  "clamp_QP t (Sc x) = Inr (if x < 0 then (Sc 0, Sc Infinity) else (Sc x, Sc (reciprocal x)))"
  by (simp add: clamp_QP_def)

lemma fill_where_same_length:
  "length sel = length A \<Longrightarrow>
   fill_where sel c A = Inr (map (\<lambda>i. if sel ! i then c else A ! i) [0..<length A])"
  by (auto simp: fill_where_def)

lemma put_where_same_length:
  "length sel = length A \<Longrightarrow> length V = length A \<Longrightarrow>
   put_where sel V A = Inr (map (\<lambda>i. if sel ! i then V ! i else A ! i) [0..<length A])"
  by (auto simp: put_where_def)

lemma clamp_QP_array:
  assumes "length ts = length xs"
  shows "\<exists>y q. clamp_QP (Ar ts) (Ar xs) = Inr (y, q) \<and>
           (\<forall>i<length xs. element y i = (if xs ! i < 0 then 0 else xs ! i) \<and>
                           element q i = (if xs ! i < 0 then Infinity else reciprocal (xs ! i)))"
proof (cases xs)
  case Nil
  then show ?thesis by (simp add: clamp_QP_def)
next
  case (Cons x1 xs1)
  note c1 = Cons
  show ?thesis
  proof (cases xs1)
    case Nil
    then show ?thesis using c1 by (simp add: clamp_QP_def)
  next
    case (Cons x2 xs2)
    have tr: "truth (nd_map (\<lambda>x. x < 0) (Ar xs)) = Inl ValueError"
      using c1 Cons by simp
    define n where "n = length xs"
    define xs' where "xs' = map (\<lambda>i. if map (\<lambda>x. x \<le> 0) xs ! i then 0 else xs ! i) [0..<n]"
    define QP1 where "QP1 = map (\<lambda>i. if map (\<lambda>x. x \<le> 0) xs ! i then Infinity else replicate n (Finite 0) ! i) [0..<n]"
    define QP2 where "QP2 = map (\<lambda>i. if map (\<lambda>x. x > 0) xs' ! i then map (\<lambda>x. Finite (1 / x)) xs' ! i else QP1 ! i) [0..<n]"
    have f1: "fill_where (map (\<lambda>x. x \<le> 0) xs) 0 xs = Inr xs'"
      unfolding xs'_def n_def by (subst fill_where_same_length) simp_all
    have f2: "fill_where (map (\<lambda>x. x \<le> 0) xs) Infinity (replicate (length ts) (Finite 0)) = Inr QP1"
      unfolding QP1_def n_def using assms by (subst fill_where_same_length) simp_all
    have f3: "put_where (map (\<lambda>x. x > 0) xs') (map (\<lambda>x. Finite (1 / x)) xs') QP1 = Inr QP2"
      unfolding QP2_def by (subst put_where_same_length) (simp_all add: xs'_def QP1_def)
    have r: "clamp_QP (Ar ts) (Ar xs) = Inr (Ar xs', Ar QP2)"
      by (simp add: clamp_QP_def tr f1 f2 f3 Let_def del: nd_map.simps)
    have "element (Ar xs') i = (if xs ! i < 0 then 0 else xs ! i) \<and>
          element (Ar QP2) i = (if xs ! i < 0 then Infinity else reciprocal (xs ! i))"
      if "i < length xs" for i
      using that by (auto simp: xs'_def QP2_def QP1_def n_def reciprocal_def not_less)
    with r show ?thesis by blast
  qed
qed

text \<open>
  The rule of lines 142 to 160 where \<open>invQP\<close> has the shape of \<open>temperature\<close>. For
  numbers as arguments (under the conditions of C4) the call returns, and with \<open>qs\<close>
  and \<open>qk\<close> its \<open>Q_S\<close> and \<open>Q_K\<close>, both not zero, and
  \<open>invQP = (1 - lmda) / qk + lmda / qs\<close> for \<open>lmda = 4/3 * (Vs / Vp)^2\<close>, its \<open>Q_P\<close>
  is \<open>inf\<close> when \<open>invQP < 0\<close> and \<open>1 / invQP\<close> otherwise (\<open>inf\<close> at zero). The clamp
  itself never raises on a number: it returns \<open>(0, inf)\<close> for a negative \<open>invQP\<close> and
  \<open>(invQP, 1 / invQP)\<close> otherwise. On an array \<open>invQP\<close> of the length of
  \<open>temperature\<close> it does not raise either, and element by element it returns the
  same two values.
\<close>

lemma Q_P_rule:
  "(model_mixing_function self (Sc P) (Sc T) = Inr (Vec fr) \<and> length fr \<le> length (Q_models self)
      \<and> fr \<noteq> [] \<and> 0 < frequency \<and> Vp \<noteq> 0
      \<and> (if T - T_solidus_function self P > dT then T_solidus_function self P + dT else T) \<noteq> 0 \<longrightarrow>
     (\<exists>r qs qk. anelastic_properties self (Sc Vp) (Sc Vs) (Sc P) (Sc T) frequency dT = Inr r
         \<and> Q_S r = Sc qs \<and> Q_K r = Sc qk
         \<and> (qs \<noteq> 0 \<and> qk \<noteq> 0 \<longrightarrow>
              Q_P r = Sc (if (1 - 4 / 3 * (Vs / Vp)\<^sup>2) / qk + 4 / 3 * (Vs / Vp)\<^sup>2 / qs < 0 then Infinity
                          else reciprocal ((1 - 4 / 3 * (Vs / Vp)\<^sup>2) / qk + 4 / 3 * (Vs / Vp)\<^sup>2 / qs)))))
   \<and> clamp_QP temperature (Sc x) =
         Inr (if x < 0 then (Sc 0, Sc Infinity) else (Sc x, Sc (reciprocal x)))
   \<and> (length ts = length xs \<longrightarrow>
        (\<exists>invQP QP. clamp_QP (Ar ts) (Ar xs) = Inr (invQP, QP) \<and>
           (\<forall>i<length xs. element invQP i = (if xs ! i < 0 then 0 else xs ! i) \<and>
                           element QP i = (if xs ! i < 0 then Infinity else reciprocal (xs ! i)))))"
proof (intro conjI impI)
  assume h: "model_mixing_function self (Sc P) (Sc T) = Inr (Vec fr) \<and> length fr \<le> length (Q_models self)
      \<and> fr \<noteq> [] \<and> 0 < frequency \<and> Vp \<noteq> 0
      \<and> (if T - T_solidus_function self P > dT then T_solidus_function self P + dT else T) \<noteq> 0"
  then have m: "model_mixing_function self (Sc P) (Sc T) = Inr (Vec fr)" "length fr \<le> length (Q_models self)"
    "fr \<noteq> []"
    by simp_all
  show "\<exists>r qs qk. anelastic_properties self (Sc Vp) (Sc Vs) (Sc P) (Sc T) frequency dT = Inr r
         \<and> Q_S r = Sc qs \<and> Q_K r = Sc qk
         \<and> (qs \<noteq> 0 \<and> qk \<noteq> 0 \<longrightarrow>
              Q_P r = Sc (if (1 - 4 / 3 * (Vs / Vp)\<^sup>2) / qk + 4 / 3 * (Vs / Vp)\<^sup>2 / qs < 0 then Infinity
                          else reciprocal ((1 - 4 / 3 * (Vs / Vp)\<^sup>2) / qk + 4 / 3 * (Vs / Vp)\<^sup>2 / qs)))"
    unfolding anelastic_scalar[OF m] by (simp add: field_simps)
next
  show "clamp_QP temperature (Sc x) =
         Inr (if x < 0 then (Sc 0, Sc Infinity) else (Sc x, Sc (reciprocal x)))"
    by (rule clamp_QP_scalar)
next
  assume "length ts = length xs"
  then show "\<exists>invQP QP. clamp_QP (Ar ts) (Ar xs) = Inr (invQP, QP) \<and>
           (\<forall>i<length xs. element invQP i = (if xs ! i < 0 then 0 else xs ! i) \<and>
                           element QP i = (if xs ! i < 0 then Infinity else reciprocal (xs ! i)))"
    by (rule clamp_QP_array)
qed

text \<open>The single-material engine with \<open>lmda = 1/3\<close>, and the step on an array with a negative, a zero and a positive element.\<close>

lemma Q_P_rule_example:
  "(\<exists>r. anelastic_properties single_material_engine (Sc 8000) (Sc 4000) (Sc 0) (Sc 1600) 1 0 = Inr r
       \<and> Q_S r = Sc (35 * exp (3 / 2)) \<and> Q_K r = Sc 1000
       \<and> Q_P r = Sc (Finite (1 / ((1 - 1 / 3) / 1000 + 1 / 3 / (35 * exp (3 / 2))))))
   \<and> (\<exists>invQP QP. clamp_QP (Ar [1600, 1600, 1600]) (Ar [-1, 0, 4]) = Inr (invQP, QP)
         \<and> element invQP 0 = 0 \<and> element QP 0 = Infinity
         \<and> element invQP 1 = 0 \<and> element QP 1 = Infinity
         \<and> element invQP 2 = 4 \<and> element QP 2 = Finite (1 / 4))"
proof -
  note rule = Q_P_rule[where self = single_material_engine and P = 0 and T = 1600 and fr = "[1]"
       and frequency = 1 and Vp = 8000 and dT = 0 and Vs = 4000
       and ts = "[1600, 1600, 1600]" and xs = "[-1, 0, 4]"]
  have hyp: "model_mixing_function single_material_engine (Sc 0) (Sc 1600) = Inr (Vec [1])
      \<and> length [1::real] \<le> length (Q_models single_material_engine) \<and> [1::real] \<noteq> []
      \<and> 0 < (1::real) \<and> (8000::real) \<noteq> 0
      \<and> (if 1600 - T_solidus_function single_material_engine 0 > 0
           then T_solidus_function single_material_engine 0 + 0 else 1600) \<noteq> 0"
    by (simp add: single_material_engine_def)
  from rule[THEN conjunct1, THEN mp, OF hyp]
  obtain r qs qk where r: "anelastic_properties single_material_engine (Sc 8000) (Sc 4000) (Sc 0) (Sc 1600) 1 0 = Inr r"
     "Q_S r = Sc qs" "Q_K r = Sc qk"
    and imp: "qs \<noteq> 0 \<and> qk \<noteq> 0 \<longrightarrow>
              Q_P r = Sc (if (1 - 4 / 3 * (4000 / 8000)\<^sup>2) / qk + 4 / 3 * (4000 / 8000)\<^sup>2 / qs < 0 then Infinity
                          else reciprocal ((1 - 4 / 3 * (4000 / 8000)\<^sup>2) / qk + 4 / 3 * (4000 / 8000)\<^sup>2 / qs))"
    by blast
  have m: "model_mixing_function single_material_engine (Sc 0) (Sc 1600) = Inr (Vec [1])"
    "length [1::real] \<le> length (Q_models single_material_engine)" "[1::real] \<noteq> []"
    by (simp_all add: single_material_engine_def)
  have v: "qs = 35 * exp (3 / 2)" "qk = 1000"
    using r unfolding anelastic_scalar[OF m]
    by (auto simp: Q_term_def single_material_engine_def)
  have "0 < 35 * exp (3 / 2 :: real)" by simp
  then have pos: "0 < (1 - 1 / 3) / 1000 + 1 / 3 / (35 * exp (3 / 2 :: real))"
    by (intro add_pos_pos divide_pos_pos) simp_all
  have "Q_P r = Sc (Finite (1 / ((1 - 1 / 3) / 1000 + 1 / 3 / (35 * exp (3 / 2)))))"
    using imp pos unfolding v by (simp add: power2_eq_square reciprocal_def)
  with r v have first: "\<exists>r. anelastic_properties single_material_engine (Sc 8000) (Sc 4000) (Sc 0) (Sc 1600) 1 0 = Inr r
       \<and> Q_S r = Sc (35 * exp (3 / 2)) \<and> Q_K r = Sc 1000
       \<and> Q_P r = Sc (Finite (1 / ((1 - 1 / 3) / 1000 + 1 / 3 / (35 * exp (3 / 2)))))"
    by blast
  have len: "length [1600, 1600, 1600 :: real] = length [-1, 0, 4 :: real]" by simp
  from rule[THEN conjunct2, THEN conjunct2, THEN mp, OF len]
  obtain invQP QP where c: "clamp_QP (Ar [1600, 1600, 1600]) (Ar [-1, 0, 4]) = Inr (invQP, QP)"
    and e: "\<forall>i<length [-1, 0, 4 :: real]. element invQP i = (if [-1, 0, 4 :: real] ! i < 0 then 0 else [-1, 0, 4] ! i) \<and>
                           element QP i = (if [-1, 0, 4 :: real] ! i < 0 then Infinity else reciprocal ([-1, 0, 4] ! i))"
    by blast
  from e[rule_format, of 0] e[rule_format, of 1] e[rule_format, of 2]
  have "element invQP 0 = 0 \<and> element QP 0 = Infinity
         \<and> element invQP 1 = 0 \<and> element QP 1 = Infinity
         \<and> element invQP 2 = 4 \<and> element QP 2 = Finite (1 / 4)"
    by (simp add: reciprocal_def)
  with c first show ?thesis by blast
qed

subsection \<open>The block for arrays\<close>

text \<open>
  A batch of two pairs or more takes the \<open>except TypeError\<close> block. With a mixing
  function that answers with one row of fractions per pair, every field of the result
  is an array with one element per pair, computed from that pair's row by the formulas
  of the block for numbers (\<open>anelastic_batch\<close>). Where the mixing function answers
  for pair \<open>e\<close> alone with that same row, the call with the numbers of pair \<open>e\<close>
  returns element \<open>e\<close> of every field of the batch (\<open>batch_matches_scalar\<close>).
\<close>

lemma zip_with_nth:
  "length xs = n \<Longrightarrow> length ys = n \<Longrightarrow>
   map (\<lambda>(x, y). f x y) (zip xs ys) = map (\<lambda>e. f (xs ! e) (ys ! e)) [0..<n]"
  by (auto simp: list_eq_iff_nth_eq)

lemma broadcast_same_length:
  "length xs = n \<Longrightarrow> length ys = n \<Longrightarrow>
   broadcast f (Ar xs) (Ar ys) = Inr (Ar (map (\<lambda>e. f (xs ! e) (ys ! e)) [0..<n]))"
  by (simp add: zip_with_nth)

lemma iadd_same_length:
  "length xs = n \<Longrightarrow> length ys = n \<Longrightarrow>
   iadd (Ar xs) (Ar ys) = Inr (Ar (map (\<lambda>e. xs ! e + ys ! e) [0..<n]))"
  by (simp add: zip_with_nth)

lemma accumulate_array:
  assumes "k < length models" and "length col = n"
    and "length s1 = n" "length s2 = n" "length s3 = n" "length tms = n" "length qts = n"
  shows "accumulate models frequency (Ar tms) (Ar qts) (Ar s1, Ar s2, Ar s3) (k, Ar col) =
     Inr (Ar (map (\<lambda>e. s1 ! e + col ! e * Q_term (models ! k) frequency (tms ! e) (qts ! e)) [0..<n]),
          Ar (map (\<lambda>e. s2 ! e + col ! e * QK (models ! k)) [0..<n]),
          Ar (map (\<lambda>e. s3 ! e + col ! e * a (models ! k)) [0..<n]))"
proof -
  have b1: "broadcast (Q_term (models ! k) frequency) (Ar tms) (Ar qts) =
      Inr (Ar (map (\<lambda>e. Q_term (models ! k) frequency (tms ! e) (qts ! e)) [0..<n]))"
    using assms by (intro broadcast_same_length) simp_all
  have b2: "broadcast (*) (Ar col) (Ar (map (\<lambda>e. Q_term (models ! k) frequency (tms ! e) (qts ! e)) [0..<n])) =
      Inr (Ar (map (\<lambda>e. col ! e * Q_term (models ! k) frequency (tms ! e) (qts ! e)) [0..<n]))"
    using assms by (subst broadcast_same_length[where n = n]) simp_all
  have i1: "iadd (Ar s1) (Ar (map (\<lambda>e. col ! e * Q_term (models ! k) frequency (tms ! e) (qts ! e)) [0..<n])) =
      Inr (Ar (map (\<lambda>e. s1 ! e + col ! e * Q_term (models ! k) frequency (tms ! e) (qts ! e)) [0..<n]))"
    using assms by (subst iadd_same_length[where n = n]) simp_all
  have i2: "iadd (Ar s2) (Ar (map (\<lambda>x. x * QK (models ! k)) col)) =
      Inr (Ar (map (\<lambda>e. s2 ! e + col ! e * QK (models ! k)) [0..<n]))"
    using assms by (subst iadd_same_length[where n = n]) simp_all
  have i3: "iadd (Ar s3) (Ar (map (\<lambda>x. x * a (models ! k)) col)) =
      Inr (Ar (map (\<lambda>e. s3 ! e + col ! e * a (models ! k)) [0..<n]))"
    using assms by (subst iadd_same_length[where n = n]) simp_all
  show ?thesis
    using assms(1)
    by (simp add: accumulate_def Let_def b1 b2 i1 i2 i3 del: broadcast.simps iadd.simps)
qed


lemma loop_array:
  assumes "k + length cols \<le> length models"
    and "\<forall>col\<in>set cols. length col = n"
    and "length s1 = n" "length s2 = n" "length s3 = n" "length tms = n" "length qts = n"
  shows "loop (accumulate models frequency (Ar tms) (Ar qts)) (Ar s1, Ar s2, Ar s3)
           (zip [k..<k + length cols] (map Ar cols)) =
         Inr (Ar (map (\<lambda>e. s1 ! e + (\<Sum>i<length cols. cols ! i ! e * Q_term (models ! (k + i)) frequency (tms ! e) (qts ! e))) [0..<n]),
              Ar (map (\<lambda>e. s2 ! e + (\<Sum>i<length cols. cols ! i ! e * QK (models ! (k + i)))) [0..<n]),
              Ar (map (\<lambda>e. s3 ! e + (\<Sum>i<length cols. cols ! i ! e * a (models ! (k + i)))) [0..<n]))"
  using assms
proof (induction cols arbitrary: k s1 s2 s3)
  case Nil
  then show ?case by (auto simp: list_eq_iff_nth_eq)
next
  case (Cons col cols)
  define t1 where "t1 = map (\<lambda>e. s1 ! e + col ! e * Q_term (models ! k) frequency (tms ! e) (qts ! e)) [0..<n]"
  define t2 where "t2 = map (\<lambda>e. s2 ! e + col ! e * QK (models ! k)) [0..<n]"
  define t3 where "t3 = map (\<lambda>e. s3 ! e + col ! e * a (models ! k)) [0..<n]"
  have z: "zip [k..<k + length (col # cols)] (map Ar (col # cols)) = (k, Ar col) # zip [Suc k..<Suc k + length cols] (map Ar cols)"
  proof -
    have "[k..<k + length (col # cols)] = k # [Suc k..<Suc k + length cols]"
      by (simp add: upt_conv_Cons del: upt_Suc)
    then show ?thesis by simp
  qed
  have step: "accumulate models frequency (Ar tms) (Ar qts) (Ar s1, Ar s2, Ar s3) (k, Ar col) = Inr (Ar t1, Ar t2, Ar t3)"
    unfolding t1_def t2_def t3_def using Cons.prems by (intro accumulate_array) simp_all
  have ih: "loop (accumulate models frequency (Ar tms) (Ar qts)) (Ar t1, Ar t2, Ar t3)
           (zip [Suc k..<Suc k + length cols] (map Ar cols)) =
         Inr (Ar (map (\<lambda>e. t1 ! e + (\<Sum>i<length cols. cols ! i ! e * Q_term (models ! (Suc k + i)) frequency (tms ! e) (qts ! e))) [0..<n]),
              Ar (map (\<lambda>e. t2 ! e + (\<Sum>i<length cols. cols ! i ! e * QK (models ! (Suc k + i)))) [0..<n]),
              Ar (map (\<lambda>e. t3 ! e + (\<Sum>i<length cols. cols ! i ! e * a (models ! (Suc k + i)))) [0..<n]))"
    using Cons.prems by (intro Cons.IH) (simp_all add: t1_def t2_def t3_def)
  have shift: "(\<Sum>i<length (col # cols). (col # cols) ! i ! e * F (k + i)) = col ! e * F k + (\<Sum>i<length cols. cols ! i ! e * F (Suc k + i))"
    for F :: "nat \<Rightarrow> real" and e
    by (simp add: sum.lessThan_Suc_shift del: sum.lessThan_Suc)
  have e1: "map (\<lambda>e. t1 ! e + (\<Sum>i<length cols. cols ! i ! e * Q_term (models ! (Suc k + i)) frequency (tms ! e) (qts ! e))) [0..<n]
      = map (\<lambda>e. s1 ! e + (\<Sum>i<length (col # cols). (col # cols) ! i ! e * Q_term (models ! (k + i)) frequency (tms ! e) (qts ! e))) [0..<n]"
    unfolding shift[of _ "\<lambda>j. Q_term (models ! j) frequency (tms ! e) (qts ! e)" for e]
    by (rule map_cong) (simp_all add: t1_def)
  have e2: "map (\<lambda>e. t2 ! e + (\<Sum>i<length cols. cols ! i ! e * QK (models ! (Suc k + i)))) [0..<n]
      = map (\<lambda>e. s2 ! e + (\<Sum>i<length (col # cols). (col # cols) ! i ! e * QK (models ! (k + i)))) [0..<n]"
    unfolding shift[of _ "\<lambda>j. QK (models ! j)"]
    by (rule map_cong) (simp_all add: t2_def)
  have e3: "map (\<lambda>e. t3 ! e + (\<Sum>i<length cols. cols ! i ! e * a (models ! (Suc k + i)))) [0..<n]
      = map (\<lambda>e. s3 ! e + (\<Sum>i<length (col # cols). (col # cols) ! i ! e * a (models ! (k + i)))) [0..<n]"
    unfolding shift[of _ "\<lambda>j. a (models ! j)"]
    by (rule map_cong) (simp_all add: t3_def)
  show ?case
    unfolding z by (simp only: loop.simps step and_then_simps ih e1 e2 e3)
qed


lemma Q_except_batch:
  fixes self :: AttenuationModelGoes and ps ts :: "real list" and rows :: "real list list"
    and frequency dT :: real and m :: nat
  defines "tms \<equiv> map (T_solidus_function self) ps"
  defines "qts \<equiv> map (\<lambda>e. if dT < ts ! e - tms ! e then tms ! e + dT else ts ! e) [0..<length ts]"
  assumes "length ps = length ts" and "length rows = length ts" and "m \<le> length (Q_models self)"
  shows "Q_except self (Mat m rows) (Ar ps) (Ar ts) frequency dT =
     Inr (Ar (map (\<lambda>e. \<Sum>i<m. rows ! e ! i * Q_term (Q_models self ! i) frequency (tms ! e) (qts ! e)) [0..<length ts]),
          Ar (map (\<lambda>e. \<Sum>i<m. rows ! e ! i * QK (Q_models self ! i)) [0..<length ts]),
          Ar (map (\<lambda>e. \<Sum>i<m. rows ! e ! i * a (Q_models self ! i)) [0..<length ts]),
          Ar tms)"
proof -
  define n where "n = length ts"
  define cols where "cols = map (\<lambda>j. map (\<lambda>row. row ! j) rows) [0..<m]"
  define zeros where "zeros = replicate n (0::real)"
  have len: "length tms = n" "length qts = n" "length ps = n" "length rows = n" "length ts = n"
    using assms(3,4) by (simp_all add: tms_def qts_def n_def)
  have sel: "broadcast (\<lambda>t tm. t > tm + dT) (Ar ts) (Ar tms) =
      Inr (Ar (map (\<lambda>e. ts ! e > tms ! e + dT) [0..<n]))"
    using len by (intro broadcast_same_length) simp_all
  have put: "put_where (map (\<lambda>e. ts ! e > tms ! e + dT) [0..<n]) (map (\<lambda>tm. tm + dT) tms) ts = Inr qts"
  proof -
    have "put_where (map (\<lambda>e. ts ! e > tms ! e + dT) [0..<n]) (map (\<lambda>tm. tm + dT) tms) ts =
        Inr (map (\<lambda>i. if map (\<lambda>e. ts ! e > tms ! e + dT) [0..<n] ! i
                        then map (\<lambda>tm. tm + dT) tms ! i else ts ! i) [0..<length ts])"
      using len by (intro put_where_same_length) simp_all
    also have "map (\<lambda>i. if map (\<lambda>e. ts ! e > tms ! e + dT) [0..<n] ! i
                        then map (\<lambda>tm. tm + dT) tms ! i else ts ! i) [0..<length ts] = qts"
      unfolding qts_def using len by (intro map_cong refl) (auto simp: algebra_simps)
    finally show ?thesis .
  qed
  have en: "enumerate_from0 (columns_of (Mat m rows)) = zip [0..<0 + length cols] (map Ar cols)"
    by (simp add: enumerate_from0_def cols_def o_def)
  have lp: "loop (accumulate (Q_models self) frequency (Ar tms) (Ar qts)) (Ar zeros, Ar zeros, Ar zeros)
           (zip [0..<0 + length cols] (map Ar cols)) =
         Inr (Ar (map (\<lambda>e. zeros ! e + (\<Sum>i<length cols. cols ! i ! e * Q_term (Q_models self ! (0 + i)) frequency (tms ! e) (qts ! e))) [0..<n]),
              Ar (map (\<lambda>e. zeros ! e + (\<Sum>i<length cols. cols ! i ! e * QK (Q_models self ! (0 + i)))) [0..<n]),
              Ar (map (\<lambda>e. zeros ! e + (\<Sum>i<length cols. cols ! i ! e * a (Q_models self ! (0 + i)))) [0..<n]))"
    using assms(5) len by (intro loop_array) (auto simp: cols_def zeros_def)
  have c: "cols ! i ! e = rows ! e ! i" if "i < m" "e < n" for i e
    using that len by (simp add: cols_def)
  have lc: "length cols = m" by (simp add: cols_def)
  have r1: "map (\<lambda>e. zeros ! e + (\<Sum>i<length cols. cols ! i ! e * F i e)) [0..<n]
          = map (\<lambda>e. \<Sum>i<m. rows ! e ! i * F i e) [0..<n]" for F :: "nat \<Rightarrow> nat \<Rightarrow> real"
    unfolding lc by (intro map_cong refl) (simp add: zeros_def c)
  show ?thesis
    unfolding Q_except_def Let_def tms_def[symmetric]
    apply (simp only: nd_map.simps tms_def[symmetric] sel and_then_simps prod.case nd.case put
        n_def[symmetric] len zeros_def[symmetric] en lp)
    apply (simp only: add_0 r1[of "\<lambda>i e. Q_term (Q_models self ! i) frequency (tms ! e) (qts ! e)"]
        r1[of "\<lambda>i e. QK (Q_models self ! i)"] r1[of "\<lambda>i e. a (Q_models self ! i)"])
    done
qed


lemma broadcast_maps:
  "broadcast f (Ar (map F [0..<n])) (Ar (map G [0..<n])) = Inr (Ar (map (\<lambda>e. f (F e) (G e)) [0..<n]))"
  by (simp add: list_eq_iff_nth_eq)

lemma clamp_QP_batch:
  assumes "length ts = length xs" and "2 \<le> length xs"
  shows "clamp_QP (Ar ts) (Ar xs) =
     Inr (Ar (map (\<lambda>x. if x < 0 then 0 else x) xs),
          Ar (map (\<lambda>x. if x < 0 then Infinity else reciprocal x) xs))"
proof -
  obtain x1 x2 xs2 where xs: "xs = x1 # x2 # xs2"
    using assms(2) by (cases xs; cases "tl xs") auto
  have tr: "truth (nd_map (\<lambda>x. x < 0) (Ar xs)) = Inl ValueError"
    unfolding xs by simp
  define n where "n = length xs"
  define xs' where "xs' = map (\<lambda>i. if map (\<lambda>x. x \<le> 0) xs ! i then 0 else xs ! i) [0..<n]"
  define QP1 where "QP1 = map (\<lambda>i. if map (\<lambda>x. x \<le> 0) xs ! i then Infinity else replicate n (Finite 0) ! i) [0..<n]"
  define QP2 where "QP2 = map (\<lambda>i. if map (\<lambda>x. x > 0) xs' ! i then map (\<lambda>x. Finite (1 / x)) xs' ! i else QP1 ! i) [0..<n]"
  have f1: "fill_where (map (\<lambda>x. x \<le> 0) xs) 0 xs = Inr xs'"
    unfolding xs'_def n_def by (subst fill_where_same_length) simp_all
  have f2: "fill_where (map (\<lambda>x. x \<le> 0) xs) Infinity (replicate (length ts) (Finite 0)) = Inr QP1"
    unfolding QP1_def n_def using assms(1) by (subst fill_where_same_length) simp_all
  have f3: "put_where (map (\<lambda>x. x > 0) xs') (map (\<lambda>x. Finite (1 / x)) xs') QP1 = Inr QP2"
    unfolding QP2_def by (subst put_where_same_length) (simp_all add: xs'_def QP1_def)
  have r: "clamp_QP (Ar ts) (Ar xs) = Inr (Ar xs', Ar QP2)"
    by (simp add: clamp_QP_def tr f1 f2 f3 Let_def del: nd_map.simps)
  have "xs' = map (\<lambda>x. if x < 0 then 0 else x) xs"
    by (rule nth_equalityI) (auto simp: xs'_def n_def)
  moreover have "QP2 = map (\<lambda>x. if x < 0 then Infinity else reciprocal x) xs"
    by (rule nth_equalityI) (auto simp: xs'_def QP2_def QP1_def n_def reciprocal_def not_less)
  ultimately show ?thesis using r by simp
qed

lemma Q_P_step_maps:
  fixes Vp Vs T S K :: "nat \<Rightarrow> real"
  defines "X \<equiv> \<lambda>e. (1 - 4 / 3 * (Vs e / Vp e)\<^sup>2) * (1 / K e) + 4 / 3 * (Vs e / Vp e)\<^sup>2 * (1 / S e)"
  assumes "2 \<le> n"
  shows "Q_P_step (Ar (map Vp [0..<n])) (Ar (map Vs [0..<n])) (Ar (map T [0..<n]))
            (Ar (map S [0..<n])) (Ar (map K [0..<n])) =
     Inr (Ar (map (\<lambda>e. 1 / S e) [0..<n]),
          Ar (map (\<lambda>e. if X e < 0 then 0 else X e) [0..<n]),
          Ar (map (\<lambda>e. if X e < 0 then Infinity else reciprocal (X e)) [0..<n]))"
proof -
  have cl: "clamp_QP (Ar (map T [0..<n])) (Ar (map X [0..<n])) =
     Inr (Ar (map (\<lambda>e. if X e < 0 then 0 else X e) [0..<n]),
          Ar (map (\<lambda>e. if X e < 0 then Infinity else reciprocal (X e)) [0..<n]))"
    using assms(2) by (subst clamp_QP_batch) (simp_all add: o_def)
  show ?thesis
    unfolding Q_P_step_def Let_def nd_map.simps map_map o_def broadcast_maps and_then_simps
    unfolding X_def[symmetric] cl
    by simp
qed

lemma correction_maps:
  "correction (Ar (map V [0..<n])) (Ar (map Q [0..<n])) (Ar (map A [0..<n])) =
     Inr (Ar (map (\<lambda>e. V e * (1 - Q e / (2 * tan (pi * A e / 2)))) [0..<n]))"
  unfolding correction_def broadcast_maps and_then_simps by simp


lemma anelastic_batch:
  fixes self :: AttenuationModelGoes and ps ts vps vss :: "real list" and rows :: "real list list"
    and frequency dT :: real and m n :: nat
  defines "Tm \<equiv> \<lambda>e. T_solidus_function self (ps ! e)"
  defines "Q_temperature \<equiv> \<lambda>e. if dT < ts ! e - Tm e then Tm e + dT else ts ! e"
  defines "QS \<equiv> \<lambda>e. \<Sum>i<m. rows ! e ! i * Q_term (Q_models self ! i) frequency (Tm e) (Q_temperature e)"
  defines "QK' \<equiv> \<lambda>e. \<Sum>i<m. rows ! e ! i * QK (Q_models self ! i)"
  defines "alpha \<equiv> \<lambda>e. \<Sum>i<m. rows ! e ! i * a (Q_models self ! i)"
  defines "invQP \<equiv> \<lambda>e. (1 - 4 / 3 * (vss ! e / vps ! e)\<^sup>2) * (1 / QK' e)
                         + 4 / 3 * (vss ! e / vps ! e)\<^sup>2 * (1 / QS e)"
  assumes "model_mixing_function self (Ar ps) (Ar ts) = Inr (Mat m rows)"
    and "length ps = n" and "length ts = n" and "length vps = n" and "length vss = n"
    and "length rows = n" and "2 \<le> n" and "m \<le> length (Q_models self)"
  shows "anelastic_properties self (Ar vps) (Ar vss) (Ar ps) (Ar ts) frequency dT =
     Inr \<lparr> V_P = Ar (map (\<lambda>e. vps ! e * (1 - (if invQP e < 0 then 0 else invQP e) / (2 * tan (pi * alpha e / 2)))) [0..<n]),
           V_S = Ar (map (\<lambda>e. vss ! e * (1 - (1 / QS e) / (2 * tan (pi * alpha e / 2)))) [0..<n]),
           Q_S = Ar (map QS [0..<n]), Q_K = Ar (map QK' [0..<n]),
           Q_P = Ar (map (\<lambda>e. if invQP e < 0 then Infinity else reciprocal (invQP e)) [0..<n]),
           T_solidus = Ar (map Tm [0..<n]) \<rparr>"
proof -
  define tms where "tms = map (T_solidus_function self) ps"
  define qts where "qts = map (\<lambda>e. if dT < ts ! e - tms ! e then tms ! e + dT else ts ! e) [0..<length ts]"
  have qe: "Q_except self (Mat m rows) (Ar ps) (Ar ts) frequency dT =
     Inr (Ar (map (\<lambda>e. \<Sum>i<m. rows ! e ! i * Q_term (Q_models self ! i) frequency (tms ! e) (qts ! e)) [0..<length ts]),
          Ar (map (\<lambda>e. \<Sum>i<m. rows ! e ! i * QK (Q_models self ! i)) [0..<length ts]),
          Ar (map (\<lambda>e. \<Sum>i<m. rows ! e ! i * a (Q_models self ! i)) [0..<length ts]),
          Ar tms)"
    unfolding tms_def qts_def using assms(8,9,12,14) by (intro Q_except_batch) simp_all
  have t: "tms ! e = Tm e" "qts ! e = Q_temperature e" if "e < n" for e
    using that assms(8,9) by (simp_all add: tms_def qts_def Tm_def Q_temperature_def)
  have m1: "map (\<lambda>e. \<Sum>i<m. rows ! e ! i * Q_term (Q_models self ! i) frequency (tms ! e) (qts ! e)) [0..<length ts]
      = map QS [0..<n]"
    unfolding assms(9) QS_def by (intro map_cong refl) (simp add: t)
  have m2: "map (\<lambda>e. \<Sum>i<m. rows ! e ! i * QK (Q_models self ! i)) [0..<length ts] = map QK' [0..<n]"
    unfolding assms(9) QK'_def by simp
  have m3: "map (\<lambda>e. \<Sum>i<m. rows ! e ! i * a (Q_models self ! i)) [0..<length ts] = map alpha [0..<n]"
    unfolding assms(9) alpha_def by simp
  have m4: "tms = map Tm [0..<n]"
    by (rule nth_equalityI) (simp_all add: tms_def assms(8) Tm_def)
  have pf: "py_float (Ar ps) = Inl TypeError"
  proof -
    obtain p1 p2 ps' where "ps = p1 # p2 # ps'"
      using assms(8,13) by (cases ps; cases "tl ps") auto
    then show ?thesis by simp
  qed
  have v: "map ((!) vps) [0..<n] = vps" "map ((!) vss) [0..<n] = vss" "map ((!) ts) [0..<n] = ts"
    using assms(9,10,11) by (auto intro!: nth_equalityI)
  have st: "Q_P_step (Ar vps) (Ar vss) (Ar ts) (Ar (map QS [0..<n])) (Ar (map QK' [0..<n])) =
     Inr (Ar (map (\<lambda>e. 1 / QS e) [0..<n]),
          Ar (map (\<lambda>e. if invQP e < 0 then 0 else invQP e) [0..<n]),
          Ar (map (\<lambda>e. if invQP e < 0 then Infinity else reciprocal (invQP e)) [0..<n]))"
    using Q_P_step_maps[OF assms(13), where Vp = "(!) vps" and Vs = "(!) vss" and T = "(!) ts"
        and S = QS and K = QK']
    by (simp only: v invQP_def)
  have c1: "correction (Ar vps) (Ar (map (\<lambda>e. if invQP e < 0 then 0 else invQP e) [0..<n])) (Ar (map alpha [0..<n])) =
      Inr (Ar (map (\<lambda>e. vps ! e * (1 - (if invQP e < 0 then 0 else invQP e) / (2 * tan (pi * alpha e / 2)))) [0..<n]))"
    using correction_maps[where V = "(!) vps" and n = n] by (simp only: v)
  have c2: "correction (Ar vss) (Ar (map (\<lambda>e. 1 / QS e) [0..<n])) (Ar (map alpha [0..<n])) =
      Inr (Ar (map (\<lambda>e. vss ! e * (1 - (1 / QS e) / (2 * tan (pi * alpha e / 2)))) [0..<n]))"
    using correction_maps[where V = "(!) vss" and n = n] by (simp only: v)
  show ?thesis
    unfolding anelastic_properties_def
    by (simp only: assms(7) and_then_simps pf sum.case qe m1 m2 m3 m4[symmetric] prod.case st c1 c2)
qed


lemma batch_matches_scalar:
  assumes "model_mixing_function self (Ar ps) (Ar ts) = Inr (Mat m rows)"
    and "length ps = n" and "length ts = n" and "length vps = n" and "length vss = n"
    and "length rows = n" and "2 \<le> n" and "m \<le> length (Q_models self)"
    and "e < n"
    and "model_mixing_function self (Sc (ps ! e)) (Sc (ts ! e)) = Inr (Vec (rows ! e))"
    and "length (rows ! e) = m" and "0 < m"
  shows "\<exists>r r'. anelastic_properties self (Ar vps) (Ar vss) (Ar ps) (Ar ts) frequency dT = Inr r
      \<and> anelastic_properties self (Sc (vps ! e)) (Sc (vss ! e)) (Sc (ps ! e)) (Sc (ts ! e)) frequency dT = Inr r'
      \<and> V_P r' = Sc (element (V_P r) e) \<and> V_S r' = Sc (element (V_S r) e)
      \<and> Q_S r' = Sc (element (Q_S r) e) \<and> Q_K r' = Sc (element (Q_K r) e)
      \<and> Q_P r' = Sc (element (Q_P r) e) \<and> T_solidus r' = Sc (element (T_solidus r) e)"
proof -
  have le: "length (rows ! e) \<le> length (Q_models self)" "rows ! e \<noteq> []"
    using assms(8,11,12) by auto
  show ?thesis
    unfolding anelastic_batch[OF assms(1-8)] anelastic_scalar[OF assms(10) le]
    using assms(9,11) by simp
qed


lemma batch_matches_scalar_example:
  "\<exists>r r0 r1.
     anelastic_properties (Q4g peridotite_solidus) (Ar [8000, 11000]) (Ar [4500, 6000])
       (Ar [5000000000, 30000000000]) (Ar [1500, 2500]) 1 0 = Inr r
   \<and> anelastic_properties (Q4g peridotite_solidus) (Sc 8000) (Sc 4500) (Sc 5000000000) (Sc 1500) 1 0 = Inr r0
   \<and> anelastic_properties (Q4g peridotite_solidus) (Sc 11000) (Sc 6000) (Sc 30000000000) (Sc 2500) 1 0 = Inr r1
   \<and> Q_S r0 = Sc (element (Q_S r) 0) \<and> Q_P r0 = Sc (element (Q_P r) 0) \<and> V_P r0 = Sc (element (V_P r) 0)
   \<and> Q_S r1 = Sc (element (Q_S r) 1) \<and> Q_P r1 = Sc (element (Q_P r) 1) \<and> V_P r1 = Sc (element (V_P r) 1)"
proof -
  define self where "self = Q4g peridotite_solidus"
  have b: "model_mixing_function self (Ar [5000000000, 30000000000]) (Ar [1500, 2500]) =
      Inr (Mat 3 [[1, 0, 0], [0, 0, 1]])"
    by (simp add: self_def Q4g_def fractions_batch batch_row_def pressure_tztop_def pressure_tzbase_def
        T_ref_def P_smooth_halfwidth_def)
  have s0: "model_mixing_function self (Sc ([5000000000, 30000000000] ! 0)) (Sc ([1500, 2500] ! 0)) =
      Inr (Vec ([[1, 0, 0], [0, 0, 1]] ! 0))"
    by (simp add: self_def Q4g_def fractions_scalar pressure_tztop_def pressure_tzbase_def
        T_ref_def P_smooth_halfwidth_def)
  have s1: "model_mixing_function self (Sc ([5000000000, 30000000000] ! 1)) (Sc ([1500, 2500] ! 1)) =
      Inr (Vec ([[1, 0, 0], [0, 0, 1]] ! 1))"
    by (simp add: self_def Q4g_def fractions_scalar pressure_tztop_def pressure_tzbase_def
        T_ref_def P_smooth_halfwidth_def)
  have l: "length [5000000000, 30000000000 :: real] = 2" "length [1500, 2500 :: real] = 2"
    "length [8000, 11000 :: real] = 2" "length [4500, 6000 :: real] = 2"
    "length [[1, 0, 0], [0, 0, 1 :: real]] = 2" "(2::nat) \<le> 2" "3 \<le> length (Q_models self)"
    by (simp_all add: self_def Q4g_def)
  from batch_matches_scalar[OF b l, of 0, OF _ s0, where frequency = 1 and dT = 0]
       batch_matches_scalar[OF b l, of 1, OF _ s1, where frequency = 1 and dT = 0]
  show ?thesis unfolding self_def by auto
qed

subsection \<open>Arrays of one element\<close>

lemma clamp_QP_short:
  assumes "length ts < length xs" and "2 \<le> length xs"
  shows "clamp_QP (Ar ts) (Ar xs) = Inl IndexError"
proof -
  obtain x1 x2 xs2 where xs: "xs = x1 # x2 # xs2"
    using assms(2) by (cases xs; cases "tl xs") auto
  have tr: "truth (nd_map (\<lambda>x. x < 0) (Ar xs)) = Inl ValueError"
    unfolding xs by simp
  define sel where "sel = map (\<lambda>x. x \<le> 0) xs"
  define xs' where "xs' = map (\<lambda>i. if sel ! i then 0 else xs ! i) [0..<length xs]"
  define k where "k = length ts"
  have k: "k < length xs" using assms(1) by (simp add: k_def)
  have f1: "fill_where sel 0 xs = Inr xs'"
    unfolding xs'_def sel_def by (subst fill_where_same_length) simp_all
  show ?thesis
  proof (cases "sel ! k")
    case True
    then have "\<exists>i<length sel. sel ! i \<and> length (replicate (length ts) (Finite 0)) \<le> i"
      using k by (intro exI[of _ k]) (simp add: sel_def k_def)
    then have "fill_where sel Infinity (replicate (length ts) (Finite 0)) = Inl IndexError"
      by (simp add: fill_where_def)
    then show ?thesis
      by (simp add: clamp_QP_def tr Let_def sel_def[symmetric] f1 del: nd_map.simps)
  next
    case False
    show ?thesis
    proof (cases "fill_where sel Infinity (replicate (length ts) (Finite 0))")
      case (Inl e)
      then have "e = IndexError" by (auto simp: fill_where_def split: if_splits)
      with Inl show ?thesis
        by (simp add: clamp_QP_def tr Let_def sel_def[symmetric] f1 del: nd_map.simps)
    next
      case (Inr QP1)
      then have l: "length QP1 = length ts" by (auto simp: fill_where_def split: if_splits)
      have pos: "\<not> xs ! k \<le> 0" using False k by (simp add: sel_def)
      have a2: "map (\<lambda>x. x > 0) xs' ! k" using False pos k by (simp add: xs'_def)
      have a1: "k < length (map (\<lambda>x. x > 0) xs')" using k by (simp add: xs'_def)
      have a3: "length QP1 \<le> k" using l by (simp add: k_def)
      from a1 a2 a3 have "\<exists>i<length (map (\<lambda>x. x > 0) xs'). map (\<lambda>x. x > 0) xs' ! i \<and>
           (length QP1 \<le> i \<or> length (map (\<lambda>x. Finite (1 / x)) xs') \<le> i)"
        by blast
      then have "put_where (map (\<lambda>x. x > 0) xs') (map (\<lambda>x. Finite (1 / x)) xs') QP1 = Inl IndexError"
        by (simp add: put_where_def)
      then show ?thesis
        by (simp add: clamp_QP_def tr Let_def sel_def[symmetric] f1 Inr del: nd_map.simps)
    qed
  qed
qed

lemma Q_try_one_row:
  assumes "2 \<le> length row" and "Q_models self \<noteq> []"
  shows "\<exists>QS QK' alpha. Q_try self (Mat m [row]) P (Ar [T]) frequency dT =
            Inr (Ar QS, Ar QK', Ar alpha, Sc (T_solidus_function self P))
          \<and> length QS = length row \<and> length QK' = length row"
proof -
  define Tm where "Tm = T_solidus_function self P"
  define Q_mod where "Q_mod = Q_models self ! 0"
  define c where "c = Q_term Q_mod frequency Tm (if dT < T - Tm then Tm + dT else T)"
  have n1: "length row \<noteq> Suc 0" using assms(1) by simp
  have acc: "accumulate (Q_models self) frequency (Sc Tm) Q_temperature (Sc 0, Sc 0, Sc 0) (0, Ar row) =
      Inr (Ar (map (\<lambda>f. 0 + f * c) row), Ar (map (\<lambda>f. 0 + f * QK Q_mod) row), Ar (map (\<lambda>f. 0 + f * a Q_mod) row))"
    if "Q_temperature = (if dT < T - Tm then Sc (Tm + dT) else Ar [T])" for Q_temperature
    using assms(2) n1 unfolding that
    by (simp add: accumulate_def Let_def Q_mod_def c_def o_def)
  have "Q_try self (Mat m [row]) P (Ar [T]) frequency dT =
      Inr (Ar (map (\<lambda>f. 0 + f * c) row), Ar (map (\<lambda>f. 0 + f * QK Q_mod) row), Ar (map (\<lambda>f. 0 + f * a Q_mod) row), Sc Tm)"
    by (simp add: Q_try_def Let_def enumerate_from0_def Tm_def[symmetric] acc)
  then show ?thesis unfolding Tm_def by simp
qed

lemma Q_P_step_short:
  assumes "length QS = n" and "length QK' = n" and "2 \<le> n"
  shows "Q_P_step (Ar [Vp]) (Ar [Vs]) (Ar [T]) (Ar QS) (Ar QK') = Inl IndexError"
proof -
  have n1: "n \<noteq> Suc 0" using assms(3) by simp
  show ?thesis
    using assms n1 by (simp add: Q_P_step_def Let_def clamp_QP_short)
qed

text \<open>
  Claim C1, at the inputs where the code departs from it. \<open>float(pressure)\<close> accepts
  an array of one element, so a batch of one pressure-temperature pair runs the block
  for numbers. That block iterates over \<open>fractions\<close>, not over \<open>fractions.T\<close>: given
  the one-row matrix that the mixing function returns for a batch of one, its loop
  runs once, with the whole row as \<open>f\<close> and the first parameter dictionary, and
  leaves in \<open>QS\<close> an array with one element per material. \<open>invQP\<close> inherits that
  length, its truth value raises ValueError, and the \<open>except\<close> block of line 154
  stores into \<open>QP\<close>, which has the single position of \<open>temperature\<close>, at a position
  it does not have: the call raises IndexError whenever there are two materials or
  more.
\<close>

theorem one_element_batch_raises:
  assumes "model_mixing_function self (Ar [P]) (Ar [T]) = Inr (Mat m [row])"
    and "2 \<le> length row" and "Q_models self \<noteq> []"
  shows "anelastic_properties self (Ar [Vp]) (Ar [Vs]) (Ar [P]) (Ar [T]) frequency dT = Inl IndexError"
proof -
  from Q_try_one_row[OF assms(2,3)] obtain QS QK' alpha where
    t: "Q_try self (Mat m [row]) P (Ar [T]) frequency dT =
          Inr (Ar QS, Ar QK', Ar alpha, Sc (T_solidus_function self P))"
    and l: "length QS = length row" "length QK' = length row"
    by blast
  have "Q_P_step (Ar [Vp]) (Ar [Vs]) (Ar [T]) (Ar QS) (Ar QK') = Inl IndexError"
    using l assms(2) by (intro Q_P_step_short) simp_all
  then show ?thesis
    by (simp add: anelastic_properties_def assms(1) t)
qed

lemma fractions_one_element_blend:
  "mantle_domain_fractions (Ar [11100000000]) (Ar [750]) = Inr (Mat 3 [[1 / 2, 1 / 2, 0]])"
  by (simp add: mantle_domain_fractions_def fractions_try_def fractions_except_def below_def
      blend_def store_pair_def batch_row_def Let_def pressure_tztop_def pressure_tzbase_def
      T_ref_def P_smooth_halfwidth_def)

text \<open>
  \<open>Q4g\<close> at 11.1 GPa and 750 K, the centre of the upper blending band, with any
  solidus function: the batch of one raises, the call with numbers returns.
\<close>

theorem one_element_batch_raises_witness:
  "\<forall>peridotite_solidus.
     anelastic_properties (Q4g peridotite_solidus)
       (Ar [8000]) (Ar [4500]) (Ar [11100000000]) (Ar [750]) 1 0 = Inl IndexError
     \<and> (\<exists>r. anelastic_properties (Q4g peridotite_solidus)
            (Sc 8000) (Sc 4500) (Sc 11100000000) (Sc 750) 1 0 = Inr r)"
proof
  fix peridotite_solidus :: "real \<Rightarrow> real"
  have m: "model_mixing_function (Q4g peridotite_solidus) (Ar [11100000000]) (Ar [750])
             = Inr (Mat 3 [[1 / 2, 1 / 2, 0]])"
    by (simp add: Q4g_def fractions_one_element_blend)
  have "anelastic_properties (Q4g peridotite_solidus)
       (Ar [8000]) (Ar [4500]) (Ar [11100000000]) (Ar [750]) 1 0 = Inl IndexError"
    by (rule one_element_batch_raises[OF m]) (simp_all add: Q4g_def)
  moreover have "\<exists>fr. model_mixing_function (Q4g peridotite_solidus) (Sc 11100000000) (Sc 750) = Inr (Vec fr)
       \<and> length fr = 3"
    using fractions_scalar_sum[of 11100000000 750] by (auto simp: Q4g_def)
  then obtain fr where fr: "model_mixing_function (Q4g peridotite_solidus) (Sc 11100000000) (Sc 750) = Inr (Vec fr)"
    and three: "length fr = 3"
    by blast
  have "length fr \<le> length (Q_models (Q4g peridotite_solidus))" "fr \<noteq> []"
    using three by (auto simp: Q4g_def)
  from anelastic_scalar[OF fr this]
  have "\<exists>r. anelastic_properties (Q4g peridotite_solidus)
            (Sc 8000) (Sc 4500) (Sc 11100000000) (Sc 750) 1 0 = Inr r"
    by simp
  ultimately show "anelastic_properties (Q4g peridotite_solidus)
       (Ar [8000]) (Ar [4500]) (Ar [11100000000]) (Ar [750]) 1 0 = Inl IndexError
     \<and> (\<exists>r. anelastic_properties (Q4g peridotite_solidus)
            (Sc 8000) (Sc 4500) (Sc 11100000000) (Sc 750) 1 0 = Inr r)"
    by simp
qed

text \<open>
  Claim C5, at the inputs where the code departs from it. For the batch of one pair
  (11.1 GPa, 750 K) the fractions are the one-row matrix \<open>[[1/2, 1/2, 0]]\<close>. With
  \<open>Q4g\<close> and any solidus function, the block for numbers returns, handing on a \<open>QS\<close>
  and a \<open>QK\<close> of three elements, one per material; \<open>invQP\<close> has three elements,
  its truth value raises ValueError, and the \<open>except\<close> block of line 154 stores at
  positions 1 and 2 of \<open>QP\<close>, which has the single position of \<open>temperature\<close>:
  the step of lines 142 to 160 raises IndexError. This is the defect of C1, met in this
  step.
\<close>

theorem Q_P_step_one_element_batch:
  "mantle_domain_fractions (Ar [11100000000]) (Ar [750]) = Inr (Mat 3 [[1 / 2, 1 / 2, 0]])
   \<and> (\<exists>QS QK' alpha Tm.
         Q_try (Q4g peridotite_solidus) (Mat 3 [[1 / 2, 1 / 2, 0]]) 11100000000 (Ar [750]) 1 0 =
           Inr (QS, QK', alpha, Tm)
         \<and> Q_P_step (Ar [8000]) (Ar [4500]) (Ar [750]) QS QK' = Inl IndexError)"
proof
  show "mantle_domain_fractions (Ar [11100000000]) (Ar [750]) = Inr (Mat 3 [[1 / 2, 1 / 2, 0]])"
    by (rule fractions_one_element_blend)
next
  have "2 \<le> length [1 / 2, 1 / 2, 0 :: real]" "Q_models (Q4g peridotite_solidus) \<noteq> []"
    by (simp_all add: Q4g_def)
  from Q_try_one_row[OF this] obtain QS QK' alpha where
    t: "Q_try (Q4g peridotite_solidus) (Mat 3 [[1 / 2, 1 / 2, 0]]) 11100000000 (Ar [750]) 1 0 =
          Inr (Ar QS, Ar QK', Ar alpha, Sc (T_solidus_function (Q4g peridotite_solidus) 11100000000))"
    and l: "length QS = length [1 / 2, 1 / 2, 0 :: real]" "length QK' = length [1 / 2, 1 / 2, 0 :: real]"
    by blast
  have "Q_P_step (Ar [8000]) (Ar [4500]) (Ar [750]) (Ar QS) (Ar QK') = Inl IndexError"
    by (rule Q_P_step_short[where n = 3]) (simp_all add: l)
  with t show "\<exists>QS QK' alpha Tm.
         Q_try (Q4g peridotite_solidus) (Mat 3 [[1 / 2, 1 / 2, 0]]) 11100000000 (Ar [750]) 1 0 =
           Inr (QS, QK', alpha, Tm)
         \<and> Q_P_step (Ar [8000]) (Ar [4500]) (Ar [750]) QS QK' = Inl IndexError"
    by blast
qed

text \<open>
  Claim C4, at the inputs where the code departs from it. For the batch of one pair
  (11.1 GPa, 750 K), with \<open>Q4g\<close> and any solidus function, the fractions are the
  one-row matrix \<open>[[1/2, 1/2, 0]]\<close>, and the loop of line 113 makes a single pass, with
  the whole row as \<open>f\<close> and the dictionary of the upper mantle: it leaves in \<open>QS\<close> the
  three products of the fractions with the term of the upper mantle, not the sum of
  each fraction times the term of its own material. The call with the same pair as
  numbers has the fractions \<open>[1/2, 1/2, 0]\<close> and returns that sum, half the term of the
  upper mantle plus half the term of the transition zone. This is the defect of C1,
  met in the loop.
\<close>

theorem Q_S_one_element_batch:
  "let Tm = peridotite_solidus 11100000000;
       Qt = (if 0 < 750 - Tm then Tm + 0 else 750);
       term_um = Q_term \<lparr> Q0 = 0.1, g = 38, a = 0.15, QK = 1000 \<rparr> 1 Tm Qt;
       term_tz = Q_term \<lparr> Q0 = 3.5, g = 20, a = 0.15, QK = 1000 \<rparr> 1 Tm Qt
   in mantle_domain_fractions (Ar [11100000000]) (Ar [750]) = Inr (Mat 3 [[1 / 2, 1 / 2, 0]])
    \<and> mantle_domain_fractions (Sc 11100000000) (Sc 750) = Inr (Vec [1 / 2, 1 / 2, 0])
    \<and> Q_try (Q4g peridotite_solidus) (Mat 3 [[1 / 2, 1 / 2, 0]]) 11100000000 (Ar [750]) 1 0 =
         Inr (Ar [1 / 2 * term_um, 1 / 2 * term_um, 0], Ar [500, 500, 0], Ar [3 / 40, 3 / 40, 0], Sc Tm)
    \<and> (\<exists>r. anelastic_properties (Q4g peridotite_solidus)
               (Sc 8000) (Sc 4500) (Sc 11100000000) (Sc 750) 1 0 = Inr r
           \<and> Q_S r = Sc (1 / 2 * term_um + 1 / 2 * term_tz))"
proof -
  define Tm where "Tm = peridotite_solidus 11100000000"
  define Qt where "Qt = (if 0 < 750 - Tm then Tm + 0 else 750)"
  have b: "mantle_domain_fractions (Ar [11100000000]) (Ar [750]) = Inr (Mat 3 [[1 / 2, 1 / 2, 0]])"
    by (rule fractions_one_element_blend)
  have n: "mantle_domain_fractions (Sc 11100000000) (Sc 750) = Inr (Vec [1 / 2, 1 / 2, 0])"
    by (simp add: fractions_scalar pressure_tztop_def pressure_tzbase_def T_ref_def
        P_smooth_halfwidth_def)
  have t: "Q_try (Q4g peridotite_solidus) (Mat 3 [[1 / 2, 1 / 2, 0]]) 11100000000 (Ar [750]) 1 0 =
         Inr (Ar [1 / 2 * Q_term \<lparr> Q0 = 0.1, g = 38, a = 0.15, QK = 1000 \<rparr> 1 Tm Qt,
                  1 / 2 * Q_term \<lparr> Q0 = 0.1, g = 38, a = 0.15, QK = 1000 \<rparr> 1 Tm Qt, 0],
              Ar [500, 500, 0], Ar [3 / 40, 3 / 40, 0], Sc Tm)"
    by (simp add: Q_try_def Let_def enumerate_from0_def accumulate_def Q4g_def Tm_def Qt_def)
  have m: "model_mixing_function (Q4g peridotite_solidus) (Sc 11100000000) (Sc 750)
             = Inr (Vec [1 / 2, 1 / 2, 0])"
    "length [1 / 2, 1 / 2, 0 :: real] \<le> length (Q_models (Q4g peridotite_solidus))"
    "[1 / 2, 1 / 2, 0 :: real] \<noteq> []"
    by (simp_all add: Q4g_def n)
  have three: "{..<3::nat} = {0, 1, 2}" by auto
  have s: "\<exists>r. anelastic_properties (Q4g peridotite_solidus)
               (Sc 8000) (Sc 4500) (Sc 11100000000) (Sc 750) 1 0 = Inr r
           \<and> Q_S r = Sc (1 / 2 * Q_term \<lparr> Q0 = 0.1, g = 38, a = 0.15, QK = 1000 \<rparr> 1 Tm Qt
                          + 1 / 2 * Q_term \<lparr> Q0 = 3.5, g = 20, a = 0.15, QK = 1000 \<rparr> 1 Tm Qt)"
    unfolding anelastic_scalar[OF m]
    by (simp add: three Q4g_def Tm_def Qt_def)
  from b n t s show ?thesis
    unfolding Let_def Tm_def Qt_def by blast
qed

end
